theory Spec2Isabelle
  imports Main "HOL-Library.AList"
begin

section \<open>gnucashxml: a shallow embedding of the GNU Cash XML reader\<close>

text \<open>
  The development follows \<^verbatim>\<open>gnucashxml.py\<close> function by function. Exceptions are
  values of the type \<open>error\<close> and a function that may raise returns \<open>error + 'a\<close>
  (\<open>Inl\<close> is the raised exception). Objects that the program shares by reference
  (commodities, accounts) live in explicit stores, lists indexed by allocation order, and
  a reference is the index of the object.
\<close>

subsection \<open>Exceptions\<close>

datatype error =
    ValueError | KeyError | AttributeError | TypeError | RuntimeError
  | InvalidOperation | DivisionByZero | Overflow | RecursionError
  | ParseError | XMLSyntaxError | IOError

fun bind_err :: "error + 'a \<Rightarrow> ('a \<Rightarrow> error + 'b) \<Rightarrow> error + 'b" where
  "bind_err (Inl e) f = Inl e"
| "bind_err (Inr x) f = f x"

subsection \<open>The element tree\<close>

text \<open>
  An element of \<^verbatim>\<open>ElementTree\<close>: its tag, its attributes, its text (\<^verbatim>\<open>None\<close> when the
  element has none) and its children in document order.
\<close>

datatype element =
  Element (tag: string) (attrib: "(string \<times> string) list") (etext: "string option")
          (children: "element list")

text \<open>
  \<^verbatim>\<open>Element.findall(path)\<close> for the paths this program uses: a sequence of tags
  separated by \<^verbatim>\<open>/\<close>, given here as the list of the tags (a namespace in braces is part
  of its tag). \<^verbatim>\<open>Element.find(path)\<close> is the first match or \<^verbatim>\<open>None\<close>.
\<close>

fun findall :: "string list \<Rightarrow> element \<Rightarrow> element list" where
  "findall [] e = [e]"
| "findall (t # ts) e = concat (map (findall ts) (filter (\<lambda>c. tag c = t) (children e)))"

definition find_path :: "string list \<Rightarrow> element \<Rightarrow> element option" where
  "find_path path e = (case findall path e of [] \<Rightarrow> None | x # _ \<Rightarrow> Some x)"

text \<open>\<^verbatim>\<open>tree.find(path).text\<close>: an \<^verbatim>\<open>AttributeError\<close> when the element is missing.\<close>

definition find_text :: "string list \<Rightarrow> element \<Rightarrow> error + string option" where
  "find_text path e = (case find_path path e of None \<Rightarrow> Inl AttributeError | Some x \<Rightarrow> Inr (etext x))"

text \<open>\<^verbatim>\<open>x = tree.find(path); if x is not None: x = x.text\<close>\<close>

definition find_text_opt :: "string list \<Rightarrow> element \<Rightarrow> string option" where
  "find_text_opt path e = (case find_path path e of None \<Rightarrow> None | Some x \<Rightarrow> etext x)"

text \<open>\<^verbatim>\<open>value.get(key, default)\<close>\<close>

definition get_attr :: "element \<Rightarrow> string \<Rightarrow> string \<Rightarrow> string" where
  "get_attr e k d = (case map_of (attrib e) k of None \<Rightarrow> d | Some v \<Rightarrow> v)"

subsection \<open>Strings and integers of Python\<close>

text \<open>
  Strings are lists of \<open>char\<close>; the model covers ASCII text. \<^verbatim>\<open>str.strip()\<close> removes
  the white space of both ends, \<^verbatim>\<open>str.split(sep)\<close> cuts at every occurrence of a
  one-character separator.
\<close>

definition isspace :: "char \<Rightarrow> bool" where
  "isspace c = (of_char c \<in> {9, 10, 11, 12, 13, 28, 29, 30, 31, 32 :: nat})"

definition isdigit :: "char \<Rightarrow> bool" where
  "isdigit c = (48 \<le> (of_char c :: nat) \<and> (of_char c :: nat) \<le> 57)"

definition str_strip :: "string \<Rightarrow> string" where
  "str_strip s = rev (dropWhile isspace (rev (dropWhile isspace s)))"

fun str_split :: "char \<Rightarrow> string \<Rightarrow> string list" where
  "str_split sep [] = [[]]"
| "str_split sep (c # cs) =
     (if c = sep then [] # str_split sep cs
      else (case str_split sep cs of p # ps \<Rightarrow> (c # p) # ps | [] \<Rightarrow> [[c]]))"

definition digit_val :: "char \<Rightarrow> nat" where
  "digit_val c = of_char c - 48"

definition nat_of_digits :: "string \<Rightarrow> nat" where
  "nat_of_digits s = foldl (\<lambda>acc c. 10 * acc + digit_val c) 0 s"

text \<open>The sign of a literal: \<^verbatim>\<open>[-+]?\<close>. The result is whether the sign is minus, and the rest.\<close>

fun take_sign :: "string \<Rightarrow> bool \<times> string" where
  "take_sign [] = (False, [])"
| "take_sign (c # cs) =
     (if c = CHR ''-'' then (True, cs) else if c = CHR ''+'' then (False, cs) else (False, c # cs))"

text \<open>
  Digits with single underscores between them, as \<^verbatim>\<open>int()\<close> accepts them: the underscore
  may stand only between two digits.
\<close>

fun int_digits :: "string \<Rightarrow> bool" where
  "int_digits [] = False"
| "int_digits [c] = isdigit c"
| "int_digits (c # d # cs) =
     (isdigit c \<and> (if d = CHR ''_'' then int_digits cs else int_digits (d # cs)))"

text \<open>\<^verbatim>\<open>int(s)\<close> on a string, base ten; \<^verbatim>\<open>int(None)\<close> is a \<^verbatim>\<open>TypeError\<close>.\<close>

definition py_int :: "string option \<Rightarrow> error + int" where
  "py_int t =
     (case t of
        None \<Rightarrow> Inl TypeError
      | Some s \<Rightarrow>
          (let (neg, ds) = take_sign (str_strip s) in
           if int_digits ds
           then (let n = int (nat_of_digits (filter (\<lambda>c. c \<noteq> CHR ''_'') ds))
                 in Inr (if neg then - n else n))
           else Inl ValueError))"

subsection \<open>Decimal numbers\<close>

text \<open>
  The values of \<^verbatim>\<open>decimal.Decimal\<close>: a finite number is a sign, a coefficient and an
  exponent and stands for \<open>\<plusminus> coeff * 10 ^ exp\<close>; the special values are the infinities and
  the quiet and signalling \<^verbatim>\<open>NaN\<close> (sign, signalling, payload).
\<close>

datatype decimal =
    Finite (dsign: bool) (dcoeff: nat) (dexp: int)
  | Infinity bool
  | NaN bool bool nat

text \<open>The default context of the \<^verbatim>\<open>decimal\<close> module; it traps
  \<^verbatim>\<open>InvalidOperation\<close>, \<^verbatim>\<open>DivisionByZero\<close> and \<^verbatim>\<open>Overflow\<close>.\<close>

definition prec :: nat where "prec = 28"
definition Emax :: int where "Emax = 999999"
definition Emin :: int where "Emin = - 999999"
definition Etiny :: int where "Etiny = Emin - int prec + 1"
definition Etop :: int where "Etop = Emax - int prec + 1"

text \<open>\<^verbatim>\<open>len(str(n))\<close>, the number of decimal digits (one for zero).\<close>

fun ndigits :: "nat \<Rightarrow> nat" where
  "ndigits n = (if n < 10 then 1 else Suc (ndigits (n div 10)))"

declare ndigits.simps [simp del]

definition lower :: "char \<Rightarrow> char" where
  "lower c =
     (case map_of (zip ''ABCDEFGHIJKLMNOPQRSTUVWXYZ'' ''abcdefghijklmnopqrstuvwxyz'') c of
        None \<Rightarrow> c | Some l \<Rightarrow> l)"

text \<open>The exponent part of a numeric string, \<^verbatim>\<open>(E[-+]?\d+)?\<close> up to the end.\<close>

definition parse_exp :: "string \<Rightarrow> int option" where
  "parse_exp r =
     (case r of
        [] \<Rightarrow> Some 0
      | c # cs \<Rightarrow>
          if lower c = CHR ''e''
          then (let (neg, ds) = take_sign cs in
                if ds \<noteq> [] \<and> list_all isdigit ds
                then Some (if neg then - int (nat_of_digits ds) else int (nat_of_digits ds))
                else None)
          else None)"

text \<open>
  \<^verbatim>\<open>Decimal(s)\<close> on a string: white space of both ends and all underscores are removed,
  then the string must be a sign and a number with at least one digit, an infinity or
  a \<^verbatim>\<open>NaN\<close>; anything else signals \<^verbatim>\<open>ConversionSyntax\<close>, raised as
  \<^verbatim>\<open>InvalidOperation\<close>. The constructor does not round.
\<close>

definition Decimal :: "string \<Rightarrow> error + decimal" where
  "Decimal s =
     (let (neg, body) = take_sign (filter (\<lambda>c. c \<noteq> CHR ''_'') (str_strip s));
          ip = takeWhile isdigit body;
          r1 = dropWhile isdigit body;
          (fp, r2) = (case r1 of
                        [] \<Rightarrow> ([], [])
                      | c # cs \<Rightarrow> if c = CHR ''.'' then (takeWhile isdigit cs, dropWhile isdigit cs)
                                  else ([], r1))
      in if ip \<noteq> [] \<or> fp \<noteq> []
         then (case parse_exp r2 of
                 None \<Rightarrow> Inl InvalidOperation
               | Some e \<Rightarrow> Inr (Finite neg (nat_of_digits (ip @ fp)) (e - int (length fp))))
         else if map lower body = ''inf'' \<or> map lower body = ''infinity''
         then Inr (Infinity neg)
         else (let (sig, r) = (case body of
                                 [] \<Rightarrow> (False, [])
                               | c # cs \<Rightarrow> if lower c = CHR ''s'' then (True, cs) else (False, body))
               in if map lower (take 3 r) = ''nan'' \<and> list_all isdigit (drop 3 r)
                  then Inr (NaN neg sig (nat_of_digits (drop 3 r)))
                  else Inl InvalidOperation))"

text \<open>
  \<^verbatim>\<open>_round_half_even\<close> on the coefficient \<open>c\<close> keeping its first \<open>digits\<close> digits:
  whether the kept digits are to be incremented (the result \<^verbatim>\<open>1\<close> of the source).
\<close>

definition round_half_even :: "nat \<Rightarrow> nat \<Rightarrow> bool" where
  "round_half_even c digits =
     (let k = ndigits c - digits;
          top = c div 10 ^ k;
          rem = c mod 10 ^ k
      in if rem = 5 * 10 ^ (k - 1) \<and> (digits = 0 \<or> even top) then False
         else 5 \<le> rem div 10 ^ (k - 1))"

text \<open>\<^verbatim>\<open>Decimal._fix\<close> on a finite number, in the default context.\<close>

definition fix_finite :: "bool \<Rightarrow> nat \<Rightarrow> int \<Rightarrow> error + decimal" where
  "fix_finite sign c e =
     (if c = 0 then Inr (Finite sign 0 (min (max e Etiny) Emax))
      else
        (let exp_min = int (ndigits c) + e - int prec in
         if exp_min > Etop then Inl Overflow
         else
           (let exp_min = (if exp_min < Etiny then Etiny else exp_min) in
            if e < exp_min
            then
              (let digits = int (ndigits c) + e - exp_min;
                   (c, digits) = (if digits < 0 then (1, 0) else (c, nat digits));
                   changed = round_half_even c digits;
                   coeff = c div 10 ^ (ndigits c - digits);
                   (coeff, exp_min) =
                     (if changed
                      then (if ndigits (coeff + 1) > prec then ((coeff + 1) div 10, exp_min + 1)
                            else (coeff + 1, exp_min))
                      else (coeff, exp_min))
               in if exp_min > Etop then Inl Overflow else Inr (Finite sign coeff exp_min))
            else Inr (Finite sign c e))))"

text \<open>\<^verbatim>\<open>Decimal._fix_nan\<close>: the payload keeps its last \<open>prec\<close> digits.\<close>

definition fix_nan :: "bool \<Rightarrow> nat \<Rightarrow> decimal" where
  "fix_nan sign payload =
     (if payload \<noteq> 0 \<and> ndigits payload > prec then NaN sign False (payload mod 10 ^ prec)
      else NaN sign False payload)"

text \<open>
  The loop of an exact division:
  \<^verbatim>\<open>while exp < ideal_exp and coeff % 10 == 0: coeff //= 10; exp += 1\<close>
\<close>

function strip_zeros :: "int \<Rightarrow> nat \<Rightarrow> int \<Rightarrow> nat \<times> int" where
  "strip_zeros ideal_exp coeff expo =
     (if expo < ideal_exp \<and> coeff mod 10 = 0 then strip_zeros ideal_exp (coeff div 10) (expo + 1)
      else (coeff, expo))"
  by pat_completeness auto
termination
  by (relation "measure (\<lambda>(ideal_exp, coeff, expo). nat (ideal_exp - expo))") auto

declare strip_zeros.simps [simp del]

text \<open>\<^verbatim>\<open>Decimal.__truediv__\<close> in the default context.\<close>

fun truediv :: "decimal \<Rightarrow> decimal \<Rightarrow> error + decimal" where
  "truediv (NaN s True p) other = Inl InvalidOperation"
| "truediv (NaN s False p) (NaN s' True p') = Inl InvalidOperation"
| "truediv (NaN s False p) other = Inr (fix_nan s p)"
| "truediv self (NaN s' True p') = Inl InvalidOperation"
| "truediv self (NaN s' False p') = Inr (fix_nan s' p')"
| "truediv (Infinity s) (Infinity s') = Inl InvalidOperation"
| "truediv (Infinity s) (Finite s' c' e') = Inr (Infinity (s \<noteq> s'))"
| "truediv (Finite s c e) (Infinity s') = Inr (Finite (s \<noteq> s') 0 Etiny)"
| "truediv (Finite s c e) (Finite s' c' e') =
     (let sign = (s \<noteq> s') in
      if c' = 0 then (if c = 0 then Inl InvalidOperation else Inl DivisionByZero)
      else if c = 0 then fix_finite sign 0 (e - e')
      else
        (let shift = int (ndigits c') - int (ndigits c) + int prec + 1;
             expo = e - e' - shift;
             (coeff, remainder) =
               (if shift \<ge> 0 then ((c * 10 ^ nat shift) div c', (c * 10 ^ nat shift) mod c')
                else (c div (c' * 10 ^ nat (- shift)), c mod (c' * 10 ^ nat (- shift))));
             (coeff, expo) =
               (if remainder \<noteq> 0 then (if coeff mod 5 = 0 then coeff + 1 else coeff, expo)
                else strip_zeros (e - e') coeff expo)
         in fix_finite sign coeff expo))"

subsection \<open>Value parsing\<close>

text \<open>
  \<^verbatim>\<open>
  def _parse_number(numstring):
      num, denum = numstring.split("/")
      return decimal.Decimal(num) / decimal.Decimal(denum)
  \<close>
  The argument is the text of an element, \<^verbatim>\<open>None\<close> when the element is empty.
\<close>

definition parse_number :: "string option \<Rightarrow> error + decimal" where
  "parse_number numstring =
     (case numstring of
        None \<Rightarrow> Inl AttributeError
      | Some s \<Rightarrow>
          (case str_split (CHR ''/'') s of
             [num, denum] \<Rightarrow>
               bind_err (Decimal num) (\<lambda>a. bind_err (Decimal denum) (\<lambda>b. truediv a b))
           | _ \<Rightarrow> Inl ValueError))"

subsection \<open>Slots\<close>

text \<open>
  The value of a slot. Dates are the values that \<^verbatim>\<open>dateutil.parser.parse\<close> returns;
  the parser is a parameter \<open>parse_date\<close> of the model, and the type \<open>'d\<close> of its results
  is any linearly ordered type (the order is the one of \<^verbatim>\<open>datetime\<close> values of one kind).
  A dictionary is an association list in insertion order, and \<^verbatim>\<open>d[k] = v\<close> is
  \<^const>\<open>AList.update\<close>.
\<close>

datatype 'd slot_value =
    SInt int
  | SDecimal decimal
  | SText "string option"
  | SDate 'd
  | SFrame "(string option \<times> 'd slot_value) list"

type_synonym 'd slots = "(string option \<times> 'd slot_value) list"

definition ns_slot :: string where "ns_slot = ''{http://www.gnucash.org/XML/slot}''"
definition ns_ts :: string where "ns_ts = ''{http://www.gnucash.org/XML/ts}''"

lemma size_filter_children: "size_list size (filter P xs) \<le> size_list size xs"
  by (induction xs) auto

lemma size_findall_one: "size_list size (findall [t] e) < size e"
proof (cases e)
  case (Element tg at tx cs)
  have "concat (map (findall []) ys) = ys" for ys :: "element list"
    by (induction ys) auto
  then have "findall [t] e = filter (\<lambda>c. tag c = t) cs"
    using Element by simp
  moreover have "size_list size (filter (\<lambda>c. tag c = t) cs) \<le> size_list size cs"
    by (rule size_filter_children)
  ultimately show ?thesis
    using Element by simp
qed

lemma size_find_path_one: "find_path [t] e = Some v \<Longrightarrow> size v < size e"
proof -
  assume "find_path [t] e = Some v"
  then obtain rest where "findall [t] e = v # rest"
    by (auto simp: find_path_def split: list.splits)
  then have "size v \<le> size_list size (findall [t] e)"
    by simp
  then show ?thesis
    using size_findall_one [of t e] by linarith
qed

text \<open>
  \<^verbatim>\<open>_slots_from_tree\<close>; \<open>slots_loop\<close> is the body of its \<^verbatim>\<open>for\<close> loop over
  \<^verbatim>\<open>tree.findall("slot")\<close>, with the dictionary built so far.
\<close>

function slots_from_tree ::
    "(string option \<Rightarrow> error + 'd) \<Rightarrow> element option \<Rightarrow> error + 'd slots"
  and slots_loop ::
    "(string option \<Rightarrow> error + 'd) \<Rightarrow> element list \<Rightarrow> 'd slots \<Rightarrow> error + 'd slots"
where
  "slots_from_tree parse_date None = Inr []"
| "slots_from_tree parse_date (Some tree) = slots_loop parse_date (findall [''slot''] tree) []"
| "slots_loop parse_date [] slots = Inr slots"
| "slots_loop parse_date (elt # elts) slots =
     (case find_path [ns_slot @ ''key''] elt of
        None \<Rightarrow> Inl AttributeError
      | Some k \<Rightarrow>
     (case find_path [ns_slot @ ''value''] elt of
        None \<Rightarrow> Inl AttributeError
      | Some val \<Rightarrow>
          (let key = etext k; ty = get_attr val ''type'' ''string'' in
           if ty = ''integer'' \<or> ty = ''double'' then
             (case py_int (etext val) of
                Inl e \<Rightarrow> Inl e
              | Inr v \<Rightarrow> slots_loop parse_date elts (AList.update key (SInt v) slots))
           else if ty = ''numeric'' then
             (case parse_number (etext val) of
                Inl e \<Rightarrow> Inl e
              | Inr v \<Rightarrow> slots_loop parse_date elts (AList.update key (SDecimal v) slots))
           else if ty = ''string'' \<or> ty = ''guid'' then
             slots_loop parse_date elts (AList.update key (SText (etext val)) slots)
           else if ty = ''gdate'' then
             (case bind_err (find_text [''gdate''] val) parse_date of
                Inl e \<Rightarrow> Inl e
              | Inr v \<Rightarrow> slots_loop parse_date elts (AList.update key (SDate v) slots))
           else if ty = ''timespec'' then
             (case bind_err (find_text [ns_ts @ ''date''] val) parse_date of
                Inl e \<Rightarrow> Inl e
              | Inr v \<Rightarrow> slots_loop parse_date elts (AList.update key (SDate v) slots))
           else if ty = ''frame'' then
             (case slots_from_tree parse_date (Some val) of
                Inl e \<Rightarrow> Inl e
              | Inr v \<Rightarrow> slots_loop parse_date elts (AList.update key (SFrame v) slots))
           else Inl RuntimeError)))"
  by pat_completeness auto
termination
proof (relation "measure (\<lambda>x. case x of
          Inl (pd, None) \<Rightarrow> 0
        | Inl (pd, Some tree) \<Rightarrow> 2 * size tree
        | Inr (pd, elts, slots) \<Rightarrow> 2 * size_list size elts + 1)")
  fix parse_date :: "string option \<Rightarrow> error + 'd" and tree :: element
  show "(Inr (parse_date, findall [''slot''] tree, []), Inl (parse_date, Some tree))
          \<in> measure (\<lambda>x. case x of
                Inl (pd, None) \<Rightarrow> 0
              | Inl (pd, Some tree) \<Rightarrow> 2 * size tree
              | Inr (pd, elts, slots) \<Rightarrow> 2 * size_list size elts + 1)"
    using size_findall_one [of "''slot''" tree] by simp
qed (auto dest!: size_find_path_one)

subsection \<open>The classes\<close>

text \<open>
  A reference to a \<^verbatim>\<open>Commodity\<close> or to an \<^verbatim>\<open>Account\<close> is the index of the object in
  its store. A \<^verbatim>\<open>Transaction\<close> is referred to by its position in the list of the
  transactions of the book, a \<^verbatim>\<open>Split\<close> by the position of its transaction and its own
  position among the splits of that transaction.
\<close>

record commodity =
  c_name :: "string option"
  c_space :: "string option"
  c_fraction :: int

text \<open>\<^verbatim>\<open>Commodity.__init__\<close>: \<^verbatim>\<open>self.fraction = fraction or 100\<close>.\<close>

definition Commodity :: "string option \<Rightarrow> string option \<Rightarrow> int option \<Rightarrow> commodity" where
  "Commodity name space fraction =
     \<lparr>c_name = name, c_space = space,
      c_fraction = (case fraction of None \<Rightarrow> 100 | Some f \<Rightarrow> if f = 0 then 100 else f)\<rparr>"

record 'd account =
  a_name :: "string option"
  a_guid :: "string option"
  a_actype :: "string option"
  a_description :: "string option"
  a_parent :: "nat option"
  a_children :: "nat list"
  a_commodity :: "nat option"
  a_commodity_scu :: "string option"
  a_splits :: "(nat \<times> nat) list"
  a_slots :: "'d slots"

text \<open>\<^verbatim>\<open>Account.__init__\<close> as \<^verbatim>\<open>_account_from_tree\<close> calls it: no parent, no children, no
  splits.\<close>

definition Account ::
    "string option \<Rightarrow> string option \<Rightarrow> string option \<Rightarrow> string option \<Rightarrow> nat option \<Rightarrow>
     string option \<Rightarrow> 'd slots \<Rightarrow> 'd account" where
  "Account name description guid actype commodity commodity_scu slots =
     \<lparr>a_name = name, a_guid = guid, a_actype = actype, a_description = description,
      a_parent = None, a_children = [], a_commodity = commodity,
      a_commodity_scu = commodity_scu, a_splits = [], a_slots = slots\<rparr>"

record 'd split =
  s_guid :: "string option"
  s_memo :: "string option"
  s_reconciled_state :: "string option"
  s_reconcile_date :: "'d option"
  s_value :: decimal
  s_quantity :: decimal
  s_account :: nat
  s_transaction :: nat
  s_action :: "string option"
  s_slots :: "'d slots"

record 'd transaction =
  t_guid :: "string option"
  t_currency :: nat
  t_date :: 'd
  t_post_date :: 'd
  t_date_entered :: 'd
  t_description :: "string option"
  t_num :: "string option"
  t_splits :: "'d split list"
  t_slots :: "'d slots"

text \<open>\<^verbatim>\<open>Transaction.__init__\<close> as \<^verbatim>\<open>_transaction_from_tree\<close> calls it: no splits yet;
  \<^verbatim>\<open>self.num = num or None\<close>.\<close>

definition Transaction ::
    "string option \<Rightarrow> nat \<Rightarrow> 'd \<Rightarrow> 'd \<Rightarrow> string option \<Rightarrow> string option \<Rightarrow> 'd slots \<Rightarrow>
     'd transaction" where
  "Transaction guid currency date date_entered description num slots =
     \<lparr>t_guid = guid, t_currency = currency, t_date = date, t_post_date = date,
      t_date_entered = date_entered, t_description = description,
      t_num = (if num = Some [] then None else num), t_splits = [], t_slots = slots\<rparr>"

record 'd price =
  p_guid :: "string option"
  p_commodity :: nat
  p_currency :: nat
  p_date :: 'd
  p_value :: decimal

text \<open>
  A \<^verbatim>\<open>Book\<close> with the two stores its references point into. \<open>b_commodities\<close> are
  the declared commodities, \<open>b_accounts\<close> the accounts linked to a parent.
\<close>

record 'd book =
  b_tree :: element
  b_guid :: "string option"
  b_prices :: "'d price list"
  b_transactions :: "'d transaction list"
  b_root_account :: "nat option"
  b_accounts :: "nat list"
  b_commodities :: "nat list"
  b_slots :: "'d slots"
  commodity_store :: "commodity list"
  account_store :: "'d account list"

subsection \<open>Commodities and prices\<close>

definition ns_gnc :: string where "ns_gnc = ''{http://www.gnucash.org/XML/gnc}''"
definition ns_book :: string where "ns_book = ''{http://www.gnucash.org/XML/book}''"
definition ns_cmdty :: string where "ns_cmdty = ''{http://www.gnucash.org/XML/cmdty}''"
definition ns_price :: string where "ns_price = ''{http://www.gnucash.org/XML/price}''"
definition ns_act :: string where "ns_act = ''{http://www.gnucash.org/XML/act}''"
definition ns_trn :: string where "ns_trn = ''{http://www.gnucash.org/XML/trn}''"
definition ns_split :: string where "ns_split = ''{http://www.gnucash.org/XML/split}''"

text \<open>
  \<^verbatim>\<open>commoditydict\<close>: from the pair (space, name) to the reference of a commodity.
  \<^verbatim>\<open>d[k]\<close> raises \<^verbatim>\<open>KeyError\<close> on a missing key.
\<close>

type_synonym commoditydict = "((string option \<times> string option) \<times> nat) list"

definition getitem :: "('k \<times> 'v) list \<Rightarrow> 'k \<Rightarrow> error + 'v" where
  "getitem d k = (case map_of d k of None \<Rightarrow> Inl KeyError | Some v \<Rightarrow> Inr v)"

text \<open>
  \<^verbatim>\<open>_commodity_from_tree\<close>:
  \<^verbatim>\<open>Commodity(name=name, space=space, fraction=int(fraction.text) if fraction is not None else None)\<close>
\<close>

definition commodity_from_tree :: "element \<Rightarrow> error + commodity" where
  "commodity_from_tree tree =
     bind_err (find_text [ns_cmdty @ ''id''] tree) (\<lambda>name.
     bind_err (find_text [ns_cmdty @ ''space''] tree) (\<lambda>space.
       (case find_path [ns_cmdty @ ''fraction''] tree of
          None \<Rightarrow> Inr (Commodity name space None)
        | Some fraction \<Rightarrow>
            bind_err (py_int (etext fraction)) (\<lambda>f. Inr (Commodity name space (Some f))))))"

text \<open>
  \<^verbatim>\<open>
  def _commodity_find(space, name):
      return commoditydict.setdefault((space,name), Commodity(name=name, space=space))
  \<close>
  The argument of \<^verbatim>\<open>setdefault\<close> is evaluated before the call, so a commodity is
  created in any case; it is entered under the key only when the key is new.
  The result is the reference found, the store and the dictionary.
\<close>

definition commodity_find ::
    "commodity list \<Rightarrow> commoditydict \<Rightarrow> string option \<Rightarrow> string option \<Rightarrow>
     nat \<times> commodity list \<times> commoditydict" where
  "commodity_find store commoditydict space name =
     (let new = length store; store = store @ [Commodity name space None] in
      case map_of commoditydict (space, name) of
        Some r \<Rightarrow> (r, store, commoditydict)
      | None \<Rightarrow> (new, store, commoditydict @ [((space, name), new)]))"

text \<open>
  The loop over the declared commodities:
  \<^verbatim>\<open>
  for child in tree.findall('{http://www.gnucash.org/XML/gnc}commodity'):
      comm = _commodity_from_tree(child)
      commoditydict[(comm.space, comm.name)] =  comm
      commodities.append(comm)
  \<close>
\<close>

fun commodities_loop ::
    "element list \<Rightarrow> commodity list \<Rightarrow> commoditydict \<Rightarrow> nat list \<Rightarrow>
     error + commodity list \<times> commoditydict \<times> nat list" where
  "commodities_loop [] store commoditydict commodities = Inr (store, commoditydict, commodities)"
| "commodities_loop (child # rest) store commoditydict commodities =
     (case commodity_from_tree child of
        Inl e \<Rightarrow> Inl e
      | Inr comm \<Rightarrow>
          commodities_loop rest (store @ [comm])
            (AList.update (c_space comm, c_name comm) (length store) commoditydict)
            (commodities @ [length store]))"

text \<open>\<^verbatim>\<open>_price_from_tree\<close>, with the store and the dictionary it may extend.\<close>

definition price_from_tree ::
    "(string option \<Rightarrow> error + 'd) \<Rightarrow> element \<Rightarrow> commodity list \<Rightarrow> commoditydict \<Rightarrow>
     error + 'd price \<times> commodity list \<times> commoditydict" where
  "price_from_tree parse_date tree store commoditydict =
     bind_err (find_text [ns_price @ ''id''] tree) (\<lambda>guid.
     bind_err (bind_err (find_text [ns_price @ ''value''] tree) parse_number) (\<lambda>val.
     bind_err (bind_err (find_text [ns_price @ ''time'', ns_ts @ ''date''] tree) parse_date) (\<lambda>date.
     bind_err (find_text [ns_price @ ''currency'', ns_cmdty @ ''space''] tree) (\<lambda>currency_space.
     bind_err (find_text [ns_price @ ''currency'', ns_cmdty @ ''id''] tree) (\<lambda>currency_name.
       (let (currency, store, commoditydict) =
              commodity_find store commoditydict currency_space currency_name in
     bind_err (find_text [ns_price @ ''commodity'', ns_cmdty @ ''space''] tree) (\<lambda>commodity_space.
     bind_err (find_text [ns_price @ ''commodity'', ns_cmdty @ ''id''] tree) (\<lambda>commodity_name.
       (let (commodity, store, commoditydict) =
              commodity_find store commoditydict commodity_space commodity_name in
        Inr (\<lparr>p_guid = guid, p_commodity = commodity, p_currency = currency,
               p_date = date, p_value = val\<rparr>, store, commoditydict))))))))))"

text \<open>\<^verbatim>\<open>for child in t.findall('price'): prices.append(_price_from_tree(child))\<close>\<close>

fun prices_loop ::
    "(string option \<Rightarrow> error + 'd) \<Rightarrow> element list \<Rightarrow> commodity list \<Rightarrow> commoditydict \<Rightarrow>
     'd price list \<Rightarrow> error + 'd price list \<times> commodity list \<times> commoditydict" where
  "prices_loop parse_date [] store commoditydict prices = Inr (prices, store, commoditydict)"
| "prices_loop parse_date (child # rest) store commoditydict prices =
     (case price_from_tree parse_date child store commoditydict of
        Inl e \<Rightarrow> Inl e
      | Inr (price, store, commoditydict) \<Rightarrow>
          prices_loop parse_date rest store commoditydict (prices @ [price]))"

subsection \<open>Accounts\<close>

type_synonym accountdict = "(string option \<times> nat) list"
type_synonym parentdict = "(string option \<times> string option) list"

text \<open>\<^verbatim>\<open>_account_from_tree\<close>: the identifier of the parent and the account.\<close>

definition account_from_tree ::
    "(string option \<Rightarrow> error + 'd) \<Rightarrow> element \<Rightarrow> commoditydict \<Rightarrow>
     error + string option \<times> 'd account" where
  "account_from_tree parse_date tree commoditydict =
     bind_err (find_text [ns_act @ ''name''] tree) (\<lambda>name.
     bind_err (find_text [ns_act @ ''id''] tree) (\<lambda>guid.
     bind_err (find_text [ns_act @ ''type''] tree) (\<lambda>actype.
       (let description = find_text_opt [ns_act @ ''description''] tree in
     bind_err (slots_from_tree parse_date (find_path [ns_act @ ''slots''] tree)) (\<lambda>slots.
       if actype = Some ''ROOT''
       then Inr (None, Account name description guid actype None None slots)
       else
     bind_err (find_text [ns_act @ ''parent''] tree) (\<lambda>parent_guid.
     bind_err (find_text [ns_act @ ''commodity'', ns_cmdty @ ''space''] tree) (\<lambda>commodity_space.
     bind_err (find_text [ns_act @ ''commodity'', ns_cmdty @ ''id''] tree) (\<lambda>commodity_name.
     bind_err (find_text [ns_act @ ''commodity-scu''] tree) (\<lambda>commodity_scu.
     bind_err (getitem commoditydict (commodity_space, commodity_name)) (\<lambda>commodity.
       Inr (parent_guid,
            Account name description guid actype (Some commodity) commodity_scu slots)))))))))))"

text \<open>
  The first pass over the accounts:
  \<^verbatim>\<open>
  for child in tree.findall('{http://www.gnucash.org/XML/gnc}account'):
      parent_guid, acc = _account_from_tree(child, commoditydict)
      if acc.actype == 'ROOT':
          root_account = acc
      accountdict[acc.guid] = acc
      parentdict[acc.guid] = parent_guid
  \<close>
  The new account is stored at the end of the store.
\<close>

fun accounts_loop ::
    "(string option \<Rightarrow> error + 'd) \<Rightarrow> element list \<Rightarrow> commoditydict \<Rightarrow> 'd account list \<Rightarrow>
     nat option \<Rightarrow> accountdict \<Rightarrow> parentdict \<Rightarrow>
     error + 'd account list \<times> nat option \<times> accountdict \<times> parentdict" where
  "accounts_loop parse_date [] commoditydict store root_account accountdict parentdict =
     Inr (store, root_account, accountdict, parentdict)"
| "accounts_loop parse_date (child # rest) commoditydict store root_account accountdict parentdict =
     (case account_from_tree parse_date child commoditydict of
        Inl e \<Rightarrow> Inl e
      | Inr (parent_guid, acc) \<Rightarrow>
          accounts_loop parse_date rest commoditydict (store @ [acc])
            (if a_actype acc = Some ''ROOT'' then Some (length store) else root_account)
            (AList.update (a_guid acc) (length store) accountdict)
            (AList.update (a_guid acc) parent_guid parentdict))"

text \<open>
  The second pass, over \<^verbatim>\<open>list(accountdict.values())\<close>:
  \<^verbatim>\<open>
  if acc.parent is None and acc.actype != 'ROOT':
      parent = accountdict[parentdict[acc.guid]]
      acc.parent = parent
      parent.children.append(acc)
      accounts.append(acc)
  \<close>
\<close>

fun link_loop ::
    "nat list \<Rightarrow> accountdict \<Rightarrow> parentdict \<Rightarrow> 'd account list \<Rightarrow> nat list \<Rightarrow>
     error + 'd account list \<times> nat list" where
  "link_loop [] accountdict parentdict store accounts = Inr (store, accounts)"
| "link_loop (acc # rest) accountdict parentdict store accounts =
     (if a_parent (store ! acc) = None \<and> a_actype (store ! acc) \<noteq> Some ''ROOT''
      then
        (case bind_err (getitem parentdict (a_guid (store ! acc))) (getitem accountdict) of
           Inl e \<Rightarrow> Inl e
         | Inr parent \<Rightarrow>
             (let store = store[acc := (store ! acc)\<lparr>a_parent := Some parent\<rparr>];
                  store = store[parent := (store ! parent)
                            \<lparr>a_children := a_children (store ! parent) @ [acc]\<rparr>]
              in link_loop rest accountdict parentdict store (accounts @ [acc])))
      else link_loop rest accountdict parentdict store accounts)"

subsection \<open>Transactions and splits\<close>

text \<open>
  \<^verbatim>\<open>_split_from_tree\<close>; \<open>ti\<close> is the transaction the split belongs to and \<open>si\<close> the
  position of the split in it. The split is appended to the splits of its account.
\<close>

definition split_from_tree ::
    "(string option \<Rightarrow> error + 'd) \<Rightarrow> element \<Rightarrow> accountdict \<Rightarrow> nat \<Rightarrow> nat \<Rightarrow> 'd account list \<Rightarrow>
     error + 'd split \<times> 'd account list" where
  "split_from_tree parse_date tree accountdict ti si store =
     bind_err (find_text [ns_split @ ''id''] tree) (\<lambda>guid.
       (let memo = find_text_opt [ns_split @ ''memo''] tree in
     bind_err (find_text [ns_split @ ''reconciled-state''] tree) (\<lambda>reconciled_state.
     bind_err (case find_path [ns_split @ ''reconcile-date'', ns_ts @ ''date''] tree of
                 None \<Rightarrow> Inr None
               | Some d \<Rightarrow> bind_err (parse_date (etext d)) (\<lambda>v. Inr (Some v))) (\<lambda>reconcile_date.
     bind_err (bind_err (find_text [ns_split @ ''value''] tree) parse_number) (\<lambda>val.
     bind_err (bind_err (find_text [ns_split @ ''quantity''] tree) parse_number) (\<lambda>quantity.
     bind_err (find_text [ns_split @ ''account''] tree) (\<lambda>account_guid.
     bind_err (getitem accountdict account_guid) (\<lambda>account.
     bind_err (slots_from_tree parse_date (find_path [ns_split @ ''slots''] tree)) (\<lambda>slots.
       (let action = find_text_opt [ns_split @ ''action''] tree;
            split = \<lparr>s_guid = guid, s_memo = memo, s_reconciled_state = reconciled_state,
                     s_reconcile_date = reconcile_date, s_value = val, s_quantity = quantity,
                     s_account = account, s_transaction = ti, s_action = action,
                     s_slots = slots\<rparr>
        in Inr (split,
                store[account := (store ! account)
                  \<lparr>a_splits := a_splits (store ! account) @ [(ti, si)]\<rparr>])))))))))))"

text \<open>
  \<^verbatim>\<open>
  for subtree in tree.findall(trn + "splits/" + trn + "split"):
      split = _split_from_tree(subtree, accountdict, transaction)
      transaction.splits.append(split)
  \<close>
\<close>

fun splits_loop ::
    "(string option \<Rightarrow> error + 'd) \<Rightarrow> element list \<Rightarrow> accountdict \<Rightarrow> nat \<Rightarrow> 'd split list \<Rightarrow>
     'd account list \<Rightarrow> error + 'd split list \<times> 'd account list" where
  "splits_loop parse_date [] accountdict ti splits store = Inr (splits, store)"
| "splits_loop parse_date (subtree # rest) accountdict ti splits store =
     (case split_from_tree parse_date subtree accountdict ti (length splits) store of
        Inl e \<Rightarrow> Inl e
      | Inr (split, store) \<Rightarrow>
          splits_loop parse_date rest accountdict ti (splits @ [split]) store)"

text \<open>\<^verbatim>\<open>_transaction_from_tree\<close>; \<open>ti\<close> is the position the transaction will have in the
  book.\<close>

definition transaction_from_tree ::
    "(string option \<Rightarrow> error + 'd) \<Rightarrow> element \<Rightarrow> accountdict \<Rightarrow> commoditydict \<Rightarrow> nat \<Rightarrow>
     'd account list \<Rightarrow> error + 'd transaction \<times> 'd account list" where
  "transaction_from_tree parse_date tree accountdict commoditydict ti store =
     bind_err (find_text [ns_trn @ ''id''] tree) (\<lambda>guid.
     bind_err (find_text [ns_trn @ ''currency'', ns_cmdty @ ''space''] tree) (\<lambda>currency_space.
     bind_err (find_text [ns_trn @ ''currency'', ns_cmdty @ ''id''] tree) (\<lambda>currency_name.
     bind_err (getitem commoditydict (currency_space, currency_name)) (\<lambda>currency.
     bind_err (bind_err (find_text [ns_trn @ ''date-posted'', ns_ts @ ''date''] tree) parse_date) (\<lambda>date.
     bind_err (bind_err (find_text [ns_trn @ ''date-entered'', ns_ts @ ''date''] tree) parse_date)
       (\<lambda>date_entered.
     bind_err (find_text [ns_trn @ ''description''] tree) (\<lambda>description.
       (let num = find_text_opt [ns_trn @ ''num''] tree in
     bind_err (slots_from_tree parse_date (find_path [ns_trn @ ''slots''] tree)) (\<lambda>slots.
       (let transaction = Transaction guid currency date date_entered description num slots in
     bind_err (splits_loop parse_date (findall [ns_trn @ ''splits'', ns_trn @ ''split''] tree)
                 accountdict ti [] store) (\<lambda>(splits, store).
       Inr (transaction\<lparr>t_splits := splits\<rparr>, store))))))))))))"

fun transactions_loop ::
    "(string option \<Rightarrow> error + 'd) \<Rightarrow> element list \<Rightarrow> accountdict \<Rightarrow> commoditydict \<Rightarrow>
     'd transaction list \<Rightarrow> 'd account list \<Rightarrow> error + 'd transaction list \<times> 'd account list" where
  "transactions_loop parse_date [] accountdict commoditydict transactions store =
     Inr (transactions, store)"
| "transactions_loop parse_date (child # rest) accountdict commoditydict transactions store =
     (case transaction_from_tree parse_date child accountdict commoditydict
             (length transactions) store of
        Inl e \<Rightarrow> Inl e
      | Inr (transaction, store) \<Rightarrow>
          transactions_loop parse_date rest accountdict commoditydict
            (transactions @ [transaction]) store)"

subsection \<open>The book\<close>

text \<open>
  \<^verbatim>\<open>_book_from_tree\<close>. Its argument is the result of \<^verbatim>\<open>root.find(...)\<close>, so it may be
  \<^verbatim>\<open>None\<close>, and then \<^verbatim>\<open>tree.find\<close> is an \<^verbatim>\<open>AttributeError\<close>.
\<close>

definition book_from_tree ::
    "(string option \<Rightarrow> error + 'd) \<Rightarrow> element option \<Rightarrow> error + 'd book" where
  "book_from_tree parse_date t =
     (case t of
        None \<Rightarrow> Inl AttributeError
      | Some tree \<Rightarrow>
     bind_err (find_text [ns_book @ ''id''] tree) (\<lambda>guid.
     bind_err (commodities_loop (findall [ns_gnc @ ''commodity''] tree) [] [] [])
       (\<lambda>(cstore, commoditydict, commodities).
     bind_err (case find_path [ns_gnc @ ''pricedb''] tree of
                 None \<Rightarrow> Inr ([], cstore, commoditydict)
               | Some t \<Rightarrow> prices_loop parse_date (findall [''price''] t) cstore commoditydict [])
       (\<lambda>(prices, cstore, commoditydict).
     bind_err (accounts_loop parse_date (findall [ns_gnc @ ''account''] tree) commoditydict
                 [] None [] [])
       (\<lambda>(store, root_account, accountdict, parentdict).
     bind_err (link_loop (map snd accountdict) accountdict parentdict store [])
       (\<lambda>(store, accounts).
     bind_err (transactions_loop parse_date (findall [ns_gnc @ ''transaction''] tree)
                 accountdict commoditydict [] store)
       (\<lambda>(transactions, store).
     bind_err (slots_from_tree parse_date (find_path [ns_book @ ''slots''] tree)) (\<lambda>slots.
       Inr \<lparr>b_tree = tree, b_guid = guid, b_prices = prices, b_transactions = transactions,
            b_root_account = root_account, b_accounts = accounts,
            b_commodities = commodities, b_slots = slots,
            commodity_store = cstore, account_store = store\<rparr>))))))))"

text \<open>
  \<^verbatim>\<open>parse\<close>. The XML library is a parameter: \<open>ElementTree_parse fobj\<close> is the root of the
  tree read from the stream, or the exception of the library.
  \<^verbatim>\<open>
  try:
      tree = ElementTree.parse(fobj)
  except ParseError:
      raise ValueError("File stream was not a valid GNU Cash v2 XML file")
  root = tree.getroot()
  if root.tag != 'gnc-v2':
      raise ValueError("File stream was not a valid GNU Cash v2 XML file")
  return _book_from_tree(root.find("{http://www.gnucash.org/XML/gnc}book"))
  \<close>
\<close>

definition parse ::
    "(string option \<Rightarrow> error + 'd) \<Rightarrow> ('s \<Rightarrow> error + element) \<Rightarrow> 's \<Rightarrow> error + 'd book" where
  "parse parse_date ElementTree_parse fobj =
     (case ElementTree_parse fobj of
        Inl e \<Rightarrow> if e = ParseError then Inl ValueError else Inl e
      | Inr root \<Rightarrow>
          if tag root \<noteq> ''gnc-v2'' then Inl ValueError
          else book_from_tree parse_date (find_path [ns_gnc @ ''book''] root))"

text \<open>
  \<^verbatim>\<open>from_filename\<close>; \<open>gz\<close> is the stream \<^verbatim>\<open>gzip.open(filename, "rb")\<close> and \<open>raw\<close> the
  stream \<^verbatim>\<open>open(filename, "rb")\<close>. Reading a file that is not compressed through
  \<open>gz\<close> is an \<^verbatim>\<open>IOError\<close> inside the XML library.
\<close>

definition from_filename ::
    "(string option \<Rightarrow> error + 'd) \<Rightarrow> ('s \<Rightarrow> error + element) \<Rightarrow> 's \<Rightarrow> 's \<Rightarrow> error + 'd book" where
  "from_filename parse_date ElementTree_parse gz raw =
     (case parse parse_date ElementTree_parse gz of
        Inl e \<Rightarrow> if e = IOError then parse parse_date ElementTree_parse raw else Inl e
      | Inr b \<Rightarrow> Inr b)"

subsection \<open>Walking the account tree\<close>

text \<open>
  \<^verbatim>\<open>Account.walk\<close>, a generator; the model is the list of the triples it yields, when the
  consumer leaves the yielded lists as they are:
  \<^verbatim>\<open>
  accounts = [self]
  while accounts:
      acc, accounts = accounts[0], accounts[1:]
      children = list(acc.children)
      yield (acc, children, acc.splits)
      accounts.extend(children)
  \<close>
  The loop need not end on an arbitrary store; not returning is the value \<open>None\<close>.
\<close>

partial_function (option) walk_loop ::
    "'d account list \<Rightarrow> nat list \<Rightarrow> (nat \<times> nat list \<times> (nat \<times> nat) list) list option" where
  "walk_loop store accounts =
     (case accounts of
        [] \<Rightarrow> Some []
      | acc # accounts \<Rightarrow>
          (let children = a_children (store ! acc) in
           Option.bind (walk_loop store (accounts @ children))
             (\<lambda>rest. Some ((acc, children, a_splits (store ! acc)) # rest))))"

definition Account_walk ::
    "'d account list \<Rightarrow> nat \<Rightarrow> (nat \<times> nat list \<times> (nat \<times> nat) list) list option" where
  "Account_walk store self = walk_loop store [self]"

text \<open>\<^verbatim>\<open>Book.walk\<close>: \<^verbatim>\<open>return self.root_account.walk()\<close>, an \<^verbatim>\<open>AttributeError\<close> when the
  book has no root account.\<close>

definition Book_walk ::
    "'d book \<Rightarrow> (error + (nat \<times> nat list \<times> (nat \<times> nat) list) list) option" where
  "Book_walk self =
     (case b_root_account self of
        None \<Rightarrow> Some (Inl AttributeError)
      | Some root \<Rightarrow> map_option Inr (Account_walk (account_store self) root))"

subsection \<open>The ledger report\<close>

text \<open>\<^verbatim>\<open>'{}'.format(x)\<close> for a string or \<^verbatim>\<open>None\<close>.\<close>

definition fmt :: "string option \<Rightarrow> string" where
  "fmt x = (case x of None \<Rightarrow> ''None'' | Some s \<Rightarrow> s)"

text \<open>\<^verbatim>\<open>Commodity.__str__\<close> returns the name; \<^verbatim>\<open>str()\<close> is a \<^verbatim>\<open>TypeError\<close> when that is
  not a string. \<open>str_commodity\<close> is \<^verbatim>\<open>str()\<close> of a commodity reference or \<^verbatim>\<open>None\<close>.\<close>

definition str_commodity :: "commodity list \<Rightarrow> nat option \<Rightarrow> error + string" where
  "str_commodity cstore c =
     (case c of
        None \<Rightarrow> Inr ''None''
      | Some r \<Rightarrow> (case c_name (cstore ! r) of None \<Rightarrow> Inl TypeError | Some n \<Rightarrow> Inr n))"

text \<open>
  \<^verbatim>\<open>Account.fullname\<close>. The recursion follows the parents; \<open>limit\<close> is the depth of
  recursion that the interpreter allows.
\<close>

fun fullname :: "nat \<Rightarrow> 'd account list \<Rightarrow> nat \<Rightarrow> error + string option" where
  "fullname 0 store self = Inl RecursionError"
| "fullname (Suc limit) store self =
     (case a_parent (store ! self) of
        None \<Rightarrow> Inr (Some [])
      | Some parent \<Rightarrow>
          (case fullname limit store parent of
             Inl e \<Rightarrow> Inl e
           | Inr pfn \<Rightarrow>
               if pfn \<noteq> None \<and> pfn \<noteq> Some []
               then Inr (Some (fmt pfn @ '':'' @ fmt (a_name (store ! self))))
               else Inr (a_name (store ! self))))"

text \<open>\<^verbatim>\<open>sep.join(xs)\<close>, \<^verbatim>\<open>str.isalpha\<close> on an ASCII character, and \<^verbatim>\<open>'{:50}'.format(s)\<close>.\<close>

definition join :: "string \<Rightarrow> string list \<Rightarrow> string" where
  "join sep xs = (case xs of [] \<Rightarrow> [] | x # rest \<Rightarrow> foldl (\<lambda>acc y. acc @ sep @ y) x rest)"

definition isalpha :: "char \<Rightarrow> bool" where
  "isalpha c = (let n = of_char c :: nat in (65 \<le> n \<and> n \<le> 90) \<or> (97 \<le> n \<and> n \<le> 122))"

definition ljust :: "nat \<Rightarrow> string \<Rightarrow> string" where
  "ljust w s = s @ replicate (w - length s) (CHR '' '')"

text \<open>A loop that collects the lines of each item and stops at the first exception.\<close>

fun map_err :: "('a \<Rightarrow> error + 'b) \<Rightarrow> 'a list \<Rightarrow> error + 'b list" where
  "map_err f [] = Inr []"
| "map_err f (x # xs) =
     (case f x of
        Inl e \<Rightarrow> Inl e
      | Inr y \<Rightarrow> (case map_err f xs of Inl e \<Rightarrow> Inl e | Inr ys \<Rightarrow> Inr (y # ys)))"

text \<open>
  \<^verbatim>\<open>Transaction.__lt__\<close> (\<^verbatim>\<open>self.date < other.date\<close>) and \<^verbatim>\<open>sorted\<close>, which compares
  with \<^verbatim>\<open>__lt__\<close> only and is stable: each element, in the order of the input, goes
  behind the elements that are not greater than it.
\<close>

definition Transaction_lt :: "('d::linorder) transaction \<Rightarrow> 'd transaction \<Rightarrow> bool" where
  "Transaction_lt self other = (t_date self < t_date other)"

fun insort_lt :: "('a \<Rightarrow> 'a \<Rightarrow> bool) \<Rightarrow> 'a \<Rightarrow> 'a list \<Rightarrow> 'a list" where
  "insort_lt lt x [] = [x]"
| "insort_lt lt x (y # ys) = (if lt x y then x # y # ys else y # insort_lt lt x ys)"

definition py_sorted :: "('a \<Rightarrow> 'a \<Rightarrow> bool) \<Rightarrow> 'a list \<Rightarrow> 'a list" where
  "py_sorted lt xs = foldl (\<lambda>acc x. insort_lt lt x acc) [] xs"

text \<open>\<^verbatim>\<open>Decimal.__abs__\<close> in the default context.\<close>

fun dec_abs :: "decimal \<Rightarrow> error + decimal" where
  "dec_abs (Finite s c e) = fix_finite False c e"
| "dec_abs (Infinity s) = Inr (Infinity False)"
| "dec_abs (NaN s True p) = Inl InvalidOperation"
| "dec_abs (NaN s False p) = Inr (fix_nan s p)"

text \<open>The block of the declared commodities.\<close>

definition commodity_lines :: "commodity list \<Rightarrow> nat list \<Rightarrow> string list" where
  "commodity_lines cstore commodities =
     concat (map (\<lambda>r. [''commodity '' @ fmt (c_name (cstore ! r)),
                        CHR 0x09 # ''namespace '' @ fmt (c_space (cstore ! r)),
                        []]) commodities)"

text \<open>The lines of one account.\<close>

definition account_lines ::
    "nat \<Rightarrow> commodity list \<Rightarrow> 'd account list \<Rightarrow> nat \<Rightarrow> error + string list" where
  "account_lines limit cstore store account =
     bind_err (fullname limit store account) (\<lambda>fn.
     bind_err (str_commodity cstore (a_commodity (store ! account))) (\<lambda>commodity.
       Inr ([''account '' @ fmt fn]
            @ (case a_description (store ! account) of
                 None \<Rightarrow> []
               | Some d \<Rightarrow> if d = [] then [] else [CHR 0x09 # ''note '' @ d])
            @ [CHR 0x09 # ''check commodity == '' @ [CHR 0x22] @ commodity @ [CHR 0x22],
               []])))"

text \<open>
  The header line of a transaction. \<open>fmt_date\<close> is the library's
  \<^verbatim>\<open>'{:%Y/%m/%d}'.format\<close>. Appending a \<^verbatim>\<open>notes\<close> slot that is not a string is a
  \<^verbatim>\<open>TypeError\<close>.
\<close>

definition header_line :: "('d \<Rightarrow> string) \<Rightarrow> 'd transaction \<Rightarrow> bool \<Rightarrow> error + string" where
  "header_line fmt_date trn reconciled =
     bind_err (case map_of (t_slots trn) (Some ''notes'') of
                 None \<Rightarrow> Inr []
               | Some (SText None) \<Rightarrow> Inr []
               | Some (SText (Some n)) \<Rightarrow> Inr ('' ; '' @ n)
               | Some _ \<Rightarrow> Inl TypeError) (\<lambda>notes.
       Inr (fmt_date (t_date trn)
            @ (if reconciled then '' *'' else [])
            @ (case t_description trn of None \<Rightarrow> [] | Some d \<Rightarrow> '' '' @ d)
            @ notes))"

text \<open>
  The line of a split. \<open>format_f x w p\<close> is the library's \<^verbatim>\<open>'{:w.pf}'.format(x)\<close> on a
  decimal number. Two commodities are compared by reference.
\<close>

definition split_line ::
    "nat \<Rightarrow> (decimal \<Rightarrow> nat \<Rightarrow> nat \<Rightarrow> error + string) \<Rightarrow> commodity list \<Rightarrow> 'd account list \<Rightarrow>
     'd transaction \<Rightarrow> bool \<Rightarrow> 'd split \<Rightarrow> error + string" where
  "split_line limit format_f cstore store trn reconciled spl =
     (let account = store ! s_account spl in
     bind_err (str_commodity cstore (a_commodity account)) (\<lambda>commodity.
       (let commodity = (if \<exists>c \<in> set commodity. \<not> isalpha c
                         then [CHR 0x22] @ commodity @ [CHR 0x22] else commodity) in
     bind_err (if a_commodity account \<noteq> Some (t_currency trn)
               then bind_err (truediv (s_value spl) (s_quantity spl)) (\<lambda>q.
                    bind_err (dec_abs q) (\<lambda>a.
                    bind_err (format_f a 12 8) (\<lambda>r.
                    bind_err (str_commodity cstore (Some (t_currency trn))) (\<lambda>currency.
                      Inr ('' @ '' @ r @ '' '' @ currency)))))
               else Inr []) (\<lambda>price.
     bind_err (fullname limit store (s_account spl)) (\<lambda>fn.
       (case a_commodity account of
          None \<Rightarrow> Inl AttributeError
        | Some c \<Rightarrow>
            (let fraction = c_fraction (cstore ! c);
                 precision = ndigits (nat \<bar>fraction\<bar>) + (if fraction < 0 then 1 else 0) - 1
             in case fn of
                  None \<Rightarrow> Inl TypeError
                | Some fn \<Rightarrow>
                    bind_err (format_f (s_quantity spl) 12 precision) (\<lambda>quantity.
                      Inr (CHR 0x09 #
                           (if \<not> reconciled \<and> s_reconciled_state spl = Some ''y'' then ''* ''
                            else if \<not> reconciled \<and> s_reconciled_state spl = Some ''c'' then ''! ''
                            else [])
                           @ ljust 50 fn @ ''  '' @ quantity @ '' '' @ commodity @ price
                           @ (case s_memo spl of
                                None \<Rightarrow> []
                              | Some m \<Rightarrow> if m = [] then [] else '' ; '' @ m))))))))))"

text \<open>
  The block of one transaction:
  \<^verbatim>\<open>reconciled = all(spl.reconciled_state == 'y' for spl in trn.splits)\<close>,
  the header, a line for each split and an empty line.
\<close>

definition transaction_lines ::
    "nat \<Rightarrow> ('d \<Rightarrow> string) \<Rightarrow> (decimal \<Rightarrow> nat \<Rightarrow> nat \<Rightarrow> error + string) \<Rightarrow> commodity list \<Rightarrow>
     'd account list \<Rightarrow> 'd transaction \<Rightarrow> error + string list" where
  "transaction_lines limit fmt_date format_f cstore store trn =
     (let reconciled = list_all (\<lambda>spl. s_reconciled_state spl = Some ''y'') (t_splits trn) in
     bind_err (header_line fmt_date trn reconciled) (\<lambda>header.
     bind_err (map_err (split_line limit format_f cstore store trn reconciled) (t_splits trn))
       (\<lambda>lines. Inr ([header] @ lines @ [[]]))))"

text \<open>\<^verbatim>\<open>Book.ledger\<close>; \<open>ledger_lines\<close> is the list \<^verbatim>\<open>outp\<close>.\<close>

definition ledger_lines ::
    "nat \<Rightarrow> ('d \<Rightarrow> string) \<Rightarrow> (decimal \<Rightarrow> nat \<Rightarrow> nat \<Rightarrow> error + string) \<Rightarrow>
     ('d::linorder) book \<Rightarrow> error + string list" where
  "ledger_lines limit fmt_date format_f self =
     bind_err (map_err (account_lines limit (commodity_store self) (account_store self))
                 (b_accounts self)) (\<lambda>al.
     bind_err (map_err (transaction_lines limit fmt_date format_f (commodity_store self)
                          (account_store self))
                 (py_sorted Transaction_lt (b_transactions self))) (\<lambda>tl.
       Inr (commodity_lines (commodity_store self) (b_commodities self)
            @ concat al @ concat tl)))"

definition ledger ::
    "nat \<Rightarrow> ('d \<Rightarrow> string) \<Rightarrow> (decimal \<Rightarrow> nat \<Rightarrow> nat \<Rightarrow> error + string) \<Rightarrow>
     ('d::linorder) book \<Rightarrow> error + string" where
  "ledger limit fmt_date format_f self =
     bind_err (ledger_lines limit fmt_date format_f self) (\<lambda>outp. Inr (join [CHR 0x0A] outp))"

declare walk_loop.simps [code]

subsection \<open>Predicates of the properties\<close>




subsection \<open>Invariants of the assembly\<close>

text \<open>
  The registry is consistent with the store: a key leads to an object of the store that
  carries the key as its space and name.
\<close>

definition reg_ok :: "commodity list \<Rightarrow> commoditydict \<Rightarrow> bool" where
  "reg_ok store cd \<longleftrightarrow>
     (\<forall>k r. map_of cd k = Some r \<longrightarrow>
        r < length store \<and> (c_space (store ! r), c_name (store ! r)) = k)"

text \<open>A reference is registered: the registry leads from the pair of its object back to it.\<close>

definition registered :: "commodity list \<Rightarrow> commoditydict \<Rightarrow> nat \<Rightarrow> bool" where
  "registered store cd r \<longleftrightarrow>
     r < length store \<and> map_of cd (c_space (store ! r), c_name (store ! r)) = Some r"

text \<open>The registry and the store only grow.\<close>

definition reg_le ::
    "commodity list \<times> commoditydict \<Rightarrow> commodity list \<times> commoditydict \<Rightarrow> bool" where
  "reg_le x y \<longleftrightarrow>
     (\<exists>ext. fst y = fst x @ ext) \<and> (\<forall>k r. map_of (snd x) k = Some r \<longrightarrow> map_of (snd y) k = Some r)"

text \<open>
  The dictionary of the accounts has distinct keys and leads from an identifier to an
  account of the store that has the identifier; so its values are distinct too.
\<close>

definition ad_ok :: "'d account list \<Rightarrow> accountdict \<Rightarrow> bool" where
  "ad_ok store ad \<longleftrightarrow>
     distinct (map fst ad)
     \<and> (\<forall>(g, r) \<in> set ad. r < length store \<and> a_guid (store ! r) = g)"

definition fresh :: "'d account \<Rightarrow> bool" where
  "fresh acc \<longleftrightarrow> a_parent acc = None \<and> a_children acc = [] \<and> a_splits acc = []"

text \<open>
  The second pass changes the parents and the children only. \<open>target\<close> is the account
  that the recorded parent identifier of an account leads to, \<open>linked\<close> says that an
  account is not of type \<^verbatim>\<open>ROOT\<close>.
\<close>

definition target :: "accountdict \<Rightarrow> parentdict \<Rightarrow> 'd account list \<Rightarrow> nat \<Rightarrow> nat option" where
  "target ad pdict store r =
     (case map_of pdict (a_guid (store ! r)) of None \<Rightarrow> None | Some pg \<Rightarrow> map_of ad pg)"

definition linked :: "'d account list \<Rightarrow> nat \<Rightarrow> bool" where
  "linked store r \<longleftrightarrow> a_actype (store ! r) \<noteq> Some ''ROOT''"

text \<open>The state of the second pass after the accounts \<open>done\<close>.\<close>

definition link_inv ::
    "accountdict \<Rightarrow> parentdict \<Rightarrow> 'd account list \<Rightarrow> nat list \<Rightarrow> 'd account list \<Rightarrow> bool" where
  "link_inv ad pdict store0 done store \<longleftrightarrow>
     length store = length store0
     \<and> map a_guid store = map a_guid store0
     \<and> map a_actype store = map a_actype store0
     \<and> map a_commodity store = map a_commodity store0
     \<and> map a_splits store = map a_splits store0
     \<and> (\<forall>r < length store0.
           a_parent (store ! r) =
             (if r \<in> set done \<and> linked store0 r then target ad pdict store0 r else None))
     \<and> (\<forall>p < length store0.
           a_children (store ! p) =
             filter (\<lambda>r. linked store0 r \<and> target ad pdict store0 r = Some p) done)"

text \<open>The transactions change the splits of the accounts only.\<close>

definition static_eq :: "'d account list \<Rightarrow> 'd account list \<Rightarrow> bool" where
  "static_eq store store' \<longleftrightarrow>
     length store' = length store
     \<and> map a_guid store' = map a_guid store
     \<and> map a_actype store' = map a_actype store
     \<and> map a_commodity store' = map a_commodity store
     \<and> map a_parent store' = map a_parent store
     \<and> map a_children store' = map a_children store"

text \<open>What a book that \<^verbatim>\<open>_book_from_tree\<close> returns is made of.\<close>

definition assembled ::
    "(string option \<Rightarrow> error + 'd) \<Rightarrow> element \<Rightarrow> 'd book \<Rightarrow> commoditydict \<Rightarrow>
     'd account list \<Rightarrow> accountdict \<Rightarrow> parentdict \<Rightarrow> 'd account list \<Rightarrow> bool" where
  "assembled pd tree b cd store1 ad pdict store2 \<longleftrightarrow>
     (\<exists>cs0 cd0.
        commodities_loop (findall [ns_gnc @ ''commodity''] tree) [] [] []
          = Inr (cs0, cd0, b_commodities b)
        \<and> (case find_path [ns_gnc @ ''pricedb''] tree of
              None \<Rightarrow> Inr ([], cs0, cd0)
            | Some t \<Rightarrow> prices_loop pd (findall [''price''] t) cs0 cd0 [])
            = Inr (b_prices b, commodity_store b, cd))
     \<and> accounts_loop pd (findall [ns_gnc @ ''account''] tree) cd [] None [] []
          = Inr (store1, b_root_account b, ad, pdict)
     \<and> link_loop (map snd ad) ad pdict store1 [] = Inr (store2, b_accounts b)
     \<and> transactions_loop pd (findall [ns_gnc @ ''transaction''] tree) ad cd [] store2
          = Inr (b_transactions b, account_store b)"


subsection \<open>An example document\<close>

text \<open>
  A small book: the currency USD, a root account with the accounts Assets (holding Bank)
  and Expenses, three transactions of which the second has no splits and the first and
  the third share their posting date, and a price quoted in a currency that is not
  declared. The example parser of dates reads a date written as a number.
\<close>

definition ex_leaf :: "string \<Rightarrow> string \<Rightarrow> element" where
  "ex_leaf t x = Element t [] (Some x) []"

definition ex_node :: "string \<Rightarrow> element list \<Rightarrow> element" where
  "ex_node t cs = Element t [] None cs"

definition ex_cmdty_ref :: "string \<Rightarrow> string \<Rightarrow> string \<Rightarrow> element" where
  "ex_cmdty_ref t sp nm =
     ex_node t [ex_leaf (ns_cmdty @ ''space'') sp, ex_leaf (ns_cmdty @ ''id'') nm]"

definition ex_commodity :: "string \<Rightarrow> string \<Rightarrow> element" where
  "ex_commodity sp nm =
     ex_node (ns_gnc @ ''commodity'')
       [ex_leaf (ns_cmdty @ ''space'') sp, ex_leaf (ns_cmdty @ ''id'') nm,
        ex_leaf (ns_cmdty @ ''fraction'') ''100'']"

definition ex_root_account :: "string \<Rightarrow> string \<Rightarrow> element" where
  "ex_root_account nm g =
     ex_node (ns_gnc @ ''account'')
       [ex_leaf (ns_act @ ''name'') nm, ex_leaf (ns_act @ ''id'') g,
        ex_leaf (ns_act @ ''type'') ''ROOT'']"

definition ex_account :: "string \<Rightarrow> string \<Rightarrow> string \<Rightarrow> string \<Rightarrow> string \<Rightarrow> element" where
  "ex_account nm g ty par cur =
     ex_node (ns_gnc @ ''account'')
       [ex_leaf (ns_act @ ''name'') nm, ex_leaf (ns_act @ ''id'') g,
        ex_leaf (ns_act @ ''type'') ty, ex_leaf (ns_act @ ''parent'') par,
        ex_cmdty_ref (ns_act @ ''commodity'') ''CURRENCY'' cur,
        ex_leaf (ns_act @ ''commodity-scu'') ''100'']"

definition ex_split :: "string \<Rightarrow> string \<Rightarrow> string \<Rightarrow> string \<Rightarrow> element" where
  "ex_split g st v a =
     ex_node (ns_trn @ ''split'')
       [ex_leaf (ns_split @ ''id'') g, ex_leaf (ns_split @ ''reconciled-state'') st,
        ex_leaf (ns_split @ ''value'') v, ex_leaf (ns_split @ ''quantity'') v,
        ex_leaf (ns_split @ ''account'') a]"

definition ex_transaction :: "string \<Rightarrow> string \<Rightarrow> string \<Rightarrow> element list \<Rightarrow> element" where
  "ex_transaction g d descr ss =
     ex_node (ns_gnc @ ''transaction'')
       [ex_leaf (ns_trn @ ''id'') g,
        ex_cmdty_ref (ns_trn @ ''currency'') ''CURRENCY'' ''USD'',
        ex_node (ns_trn @ ''date-posted'') [ex_leaf (ns_ts @ ''date'') d],
        ex_node (ns_trn @ ''date-entered'') [ex_leaf (ns_ts @ ''date'') d],
        ex_leaf (ns_trn @ ''description'') descr,
        ex_node (ns_trn @ ''splits'') ss]"

definition ex_price :: "string \<Rightarrow> string \<Rightarrow> string \<Rightarrow> string \<Rightarrow> string \<Rightarrow> element" where
  "ex_price g v d cur nm =
     ex_node ''price''
       [ex_leaf (ns_price @ ''id'') g, ex_leaf (ns_price @ ''value'') v,
        ex_node (ns_price @ ''time'') [ex_leaf (ns_ts @ ''date'') d],
        ex_cmdty_ref (ns_price @ ''currency'') ''CURRENCY'' cur,
        ex_cmdty_ref (ns_price @ ''commodity'') ''CURRENCY'' nm]"

definition ex_parse_date :: "string option \<Rightarrow> error + nat" where
  "ex_parse_date t =
     (case t of
        None \<Rightarrow> Inl TypeError
      | Some s \<Rightarrow> if s \<noteq> [] \<and> list_all isdigit s then Inr (nat_of_digits s) else Inl ValueError)"

definition ex_doc :: element where
  "ex_doc =
     ex_node (ns_gnc @ ''book'')
       [ex_leaf (ns_book @ ''id'') ''b1'',
        ex_commodity ''CURRENCY'' ''USD'',
        ex_node (ns_gnc @ ''pricedb'') [ex_price ''p1'' ''0/1'' ''3'' ''EUR'' ''USD''],
        ex_account ''Bank'' ''a2'' ''BANK'' ''a1'' ''USD'',
        ex_root_account ''Root'' ''a0'',
        ex_account ''Assets'' ''a1'' ''ASSET'' ''a0'' ''USD'',
        ex_account ''Expenses'' ''a3'' ''EXPENSE'' ''a0'' ''USD'',
        ex_transaction ''t1'' ''3'' ''first''
          [ex_split ''s1'' ''y'' ''0/100'' ''a2'', ex_split ''s2'' ''n'' ''0/100'' ''a3''],
        ex_transaction ''t2'' ''2'' ''second'' [],
        ex_transaction ''t3'' ''3'' ''third'' [ex_split ''s3'' ''y'' ''0/1'' ''a2'']]"

text \<open>The book that \<^verbatim>\<open>_book_from_tree\<close> builds from the example document.\<close>

definition ex_book :: "nat book" where
  "ex_book =
     \<lparr>b_tree = ex_doc, b_guid = Some ''b1'',
      b_prices =
        [\<lparr>p_guid = Some ''p1'', p_commodity = 0, p_currency = 1, p_date = 3,
           p_value = Finite False 0 0\<rparr>],
      b_transactions =
        [\<lparr>t_guid = Some ''t1'', t_currency = 0, t_date = 3, t_post_date = 3,
           t_date_entered = 3, t_description = Some ''first'', t_num = None,
           t_splits =
             [\<lparr>s_guid = Some ''s1'', s_memo = None, s_reconciled_state = Some ''y'',
                s_reconcile_date = None, s_value = Finite False 0 0,
                s_quantity = Finite False 0 0, s_account = 0, s_transaction = 0,
                s_action = None, s_slots = []\<rparr>,
              \<lparr>s_guid = Some ''s2'', s_memo = None, s_reconciled_state = Some ''n'',
                s_reconcile_date = None, s_value = Finite False 0 0,
                s_quantity = Finite False 0 0, s_account = 3, s_transaction = 0,
                s_action = None, s_slots = []\<rparr>],
           t_slots = []\<rparr>,
         \<lparr>t_guid = Some ''t2'', t_currency = 0, t_date = 2, t_post_date = 2,
           t_date_entered = 2, t_description = Some ''second'', t_num = None,
           t_splits = [], t_slots = []\<rparr>,
         \<lparr>t_guid = Some ''t3'', t_currency = 0, t_date = 3, t_post_date = 3,
           t_date_entered = 3, t_description = Some ''third'', t_num = None,
           t_splits =
             [\<lparr>s_guid = Some ''s3'', s_memo = None, s_reconciled_state = Some ''y'',
                s_reconcile_date = None, s_value = Finite False 0 0,
                s_quantity = Finite False 0 0, s_account = 0, s_transaction = 2,
                s_action = None, s_slots = []\<rparr>],
           t_slots = []\<rparr>],
      b_root_account = Some 1, b_accounts = [0, 2, 3], b_commodities = [0], b_slots = [],
      commodity_store =
        [\<lparr>c_name = Some ''USD'', c_space = Some ''CURRENCY'', c_fraction = 100\<rparr>,
         \<lparr>c_name = Some ''EUR'', c_space = Some ''CURRENCY'', c_fraction = 100\<rparr>,
         \<lparr>c_name = Some ''USD'', c_space = Some ''CURRENCY'', c_fraction = 100\<rparr>],
      account_store =
        [\<lparr>a_name = Some ''Bank'', a_guid = Some ''a2'', a_actype = Some ''BANK'',
           a_description = None, a_parent = Some 2, a_children = [], a_commodity = Some 0,
           a_commodity_scu = Some ''100'', a_splits = [(0, 0), (2, 0)], a_slots = []\<rparr>,
         \<lparr>a_name = Some ''Root'', a_guid = Some ''a0'', a_actype = Some ''ROOT'',
           a_description = None, a_parent = None, a_children = [2, 3], a_commodity = None,
           a_commodity_scu = None, a_splits = [], a_slots = []\<rparr>,
         \<lparr>a_name = Some ''Assets'', a_guid = Some ''a1'', a_actype = Some ''ASSET'',
           a_description = None, a_parent = Some 1, a_children = [0], a_commodity = Some 0,
           a_commodity_scu = Some ''100'', a_splits = [], a_slots = []\<rparr>,
         \<lparr>a_name = Some ''Expenses'', a_guid = Some ''a3'', a_actype = Some ''EXPENSE'',
           a_description = None, a_parent = Some 1, a_children = [], a_commodity = Some 0,
           a_commodity_scu = Some ''100'', a_splits = [(0, 1)], a_slots = []\<rparr>]\<rparr>"

definition ex_fmt_date :: "nat \<Rightarrow> string" where
  "ex_fmt_date d = ''2020/01/0'' @ [char_of (48 + d)]"

definition ex_format_f :: "decimal \<Rightarrow> nat \<Rightarrow> nat \<Rightarrow> error + string" where
  "ex_format_f x w p = Inr (replicate w (CHR ''#''))"



text \<open>An XML library for the examples: the stream is a string.\<close>

definition ex_ElementTree_parse :: "string \<Rightarrow> error + element" where
  "ex_ElementTree_parse fobj =
     (if fobj = ''<gnc-v2/>'' then Inr (ex_node ''gnc-v2'' [])
      else if fobj = ''<html/>'' then Inr (ex_node ''html'' [])
      else Inl ParseError)"

text \<open>
  The library that the module imports first, \<^verbatim>\<open>lxml.etree\<close>: a stream that is not
  well-formed XML is its \<^verbatim>\<open>XMLSyntaxError\<close>, a class apart from the \<^verbatim>\<open>ParseError\<close> of
  \<^verbatim>\<open>xml.etree.ElementTree\<close> that the module imports for its handler.
\<close>

definition ex_lxml_parse :: "string \<Rightarrow> error + element" where
  "ex_lxml_parse fobj =
     (if fobj = ''<gnc-v2/>'' then Inr (ex_node ''gnc-v2'' [])
      else if fobj = ''<html/>'' then Inr (ex_node ''html'' [])
      else Inl XMLSyntaxError)"

text \<open>
  Two documents that refer to a currency that is not declared: an account in EUR, and a
  transaction in USD where nothing is declared.
\<close>

definition ex_doc_undeclared :: element where
  "ex_doc_undeclared =
     ex_node (ns_gnc @ ''book'')
       [ex_leaf (ns_book @ ''id'') ''b2'',
        ex_commodity ''CURRENCY'' ''USD'',
        ex_root_account ''Root'' ''a0'',
        ex_account ''Cash'' ''a1'' ''ASSET'' ''a0'' ''EUR'']"

definition ex_doc_undeclared_trn :: element where
  "ex_doc_undeclared_trn =
     ex_node (ns_gnc @ ''book'')
       [ex_leaf (ns_book @ ''id'') ''b3'',
        ex_root_account ''Root'' ''a0'',
        ex_transaction ''t1'' ''3'' ''first'' []]"

section \<open>Properties\<close>

subsection \<open>Exceptions and loops\<close>

lemma bind_err_Inr_iff: "bind_err m f = Inr y \<longleftrightarrow> (\<exists>x. m = Inr x \<and> f x = Inr y)"
  by (cases m) auto

lemma bind_err_Inl_iff:
  "bind_err m f = Inl e \<longleftrightarrow> m = Inl e \<or> (\<exists>x. m = Inr x \<and> f x = Inl e)"
  by (cases m) auto

lemma not_isl_Inr: "\<not> isl x \<Longrightarrow> x = Inr (projr x)"
  by (cases x) auto

lemma map_err_Inr_length: "map_err f xs = Inr ys \<Longrightarrow> length ys = length xs"
  by (induction xs arbitrary: ys) (auto split: sum.splits)

lemma map_err_Inr_nth: "map_err f xs = Inr ys \<Longrightarrow> i < length xs \<Longrightarrow> f (xs ! i) = Inr (ys ! i)"
proof (induction xs arbitrary: ys i)
  case Nil
  then show ?case by simp
next
  case (Cons x xs)
  then show ?case
    by (cases i) (auto split: sum.splits)
qed

lemma map_err_mem:
  "map_err f xs = Inr ys \<Longrightarrow> x \<in> set xs \<Longrightarrow> \<exists>y \<in> set ys. f x = Inr y"
  by (induction xs arbitrary: ys) (auto split: sum.splits)

subsection \<open>The order of \<^verbatim>\<open>sorted\<close>\<close>

lemma set_insort_lt: "set (insort_lt lt x ys) = insert x (set ys)"
  by (induction ys) auto

lemma set_foldl_insort_lt:
  "set (foldl (\<lambda>acc x. insort_lt lt x acc) acc xs) = set acc \<union> set xs"
  by (induction xs arbitrary: acc) (auto simp: set_insort_lt)

lemma set_py_sorted: "set (py_sorted lt xs) = set xs"
  by (simp add: py_sorted_def set_foldl_insort_lt)

lemma length_insort_lt: "length (insort_lt lt x ys) = Suc (length ys)"
  by (induction ys) auto

lemma length_py_sorted: "length (py_sorted lt xs) = length xs"
proof -
  have "length (foldl (\<lambda>acc x. insort_lt lt x acc) acc xs) = length acc + length xs" for acc
    by (induction xs arbitrary: acc) (auto simp: length_insort_lt)
  then show ?thesis by (simp add: py_sorted_def)
qed

lemma sorted_insort_lt:
  "sorted (map f ys) \<Longrightarrow> sorted (map f (insort_lt (\<lambda>a b. f a < f b) x ys))"
  by (induction ys) (auto simp: set_insort_lt)

lemma sorted_foldl_insort_lt:
  "sorted (map f acc) \<Longrightarrow>
     sorted (map f (foldl (\<lambda>acc x. insort_lt (\<lambda>a b. f a < f b) x acc) acc xs))"
  by (induction xs arbitrary: acc) (auto simp: sorted_insort_lt)

text \<open>An element is inserted behind the elements that have its key.\<close>

lemma filter_insort_lt:
  "sorted (map f ys) \<Longrightarrow>
     filter (\<lambda>y. f y = k) (insort_lt (\<lambda>a b. f a < f b) x ys) =
       (if f x = k then filter (\<lambda>y. f y = k) ys @ [x] else filter (\<lambda>y. f y = k) ys)"
proof (induction ys)
  case Nil
  then show ?case by simp
next
  case (Cons y ys)
  show ?case
  proof (cases "f x < f y")
    case True
    then have "\<forall>z \<in> set (y # ys). f x < f z"
      using Cons.prems by auto
    then have "f x = k \<Longrightarrow> filter (\<lambda>y. f y = k) (y # ys) = []"
      by (auto simp: filter_empty_conv)
    with True show ?thesis by auto
  next
    case False
    with Cons show ?thesis by auto
  qed
qed

lemma filter_foldl_insort_lt:
  "sorted (map f acc) \<Longrightarrow>
     filter (\<lambda>y. f y = k) (foldl (\<lambda>acc x. insort_lt (\<lambda>a b. f a < f b) x acc) acc xs) =
       filter (\<lambda>y. f y = k) acc @ filter (\<lambda>y. f y = k) xs"
  by (induction xs arbitrary: acc) (auto simp: sorted_insort_lt filter_insort_lt)

lemma Transaction_lt_eq: "Transaction_lt = (\<lambda>a b. t_date a < t_date b)"
  by (auto simp: Transaction_lt_def fun_eq_iff)

lemma sorted_py_sorted_transactions: "sorted (map t_date (py_sorted Transaction_lt ts))"
  unfolding py_sorted_def Transaction_lt_eq
  by (rule sorted_foldl_insort_lt) simp

lemma stable_py_sorted_transactions:
  "filter (\<lambda>t. t_date t = d) (py_sorted Transaction_lt ts) = filter (\<lambda>t. t_date t = d) ts"
  unfolding py_sorted_def Transaction_lt_eq
  by (subst filter_foldl_insort_lt) simp_all

text \<open>
  Claim C8. The report renders the blocks of the transactions in the order of
  \<^verbatim>\<open>sorted(self.transactions)\<close>: behind the lines of the commodities and of the accounts
  come the blocks of the sorted transactions, one after the other. The posting dates of
  that order ascend, so of two transactions with distinct dates the earlier one comes
  first; and the sort is stable: the transactions of any one posting date stand in the
  order they have in the document.
\<close>

theorem ledger_transactions_stable_sorted:
  assumes "ledger_lines limit fmt_date format_f self = Inr outp"
  shows "(\<exists>al blocks.
            outp = commodity_lines (commodity_store self) (b_commodities self)
                   @ concat al @ concat blocks
          \<and> length blocks = length (b_transactions self)
          \<and> (\<forall>i < length blocks.
                transaction_lines limit fmt_date format_f (commodity_store self)
                  (account_store self) (py_sorted Transaction_lt (b_transactions self) ! i)
                = Inr (blocks ! i)))
       \<and> sorted (map t_date (py_sorted Transaction_lt (b_transactions self)))
       \<and> (\<forall>d. filter (\<lambda>t. t_date t = d) (py_sorted Transaction_lt (b_transactions self)) =
                filter (\<lambda>t. t_date t = d) (b_transactions self))"
proof -
  let ?ts = "py_sorted Transaction_lt (b_transactions self)"
  let ?f = "transaction_lines limit fmt_date format_f (commodity_store self) (account_store self)"
  from assms obtain al tl where
      tl: "map_err ?f ?ts = Inr tl"
    and outp: "outp = commodity_lines (commodity_store self) (b_commodities self)
                      @ concat al @ concat tl"
    by (auto simp: ledger_lines_def bind_err_Inr_iff)
  have "length tl = length (b_transactions self)"
    using map_err_Inr_length [OF tl] by (simp add: length_py_sorted)
  moreover have "\<forall>i < length tl. ?f (?ts ! i) = Inr (tl ! i)"
    using map_err_Inr_nth [OF tl] map_err_Inr_length [OF tl] by simp
  ultimately have "\<exists>al blocks.
            outp = commodity_lines (commodity_store self) (b_commodities self)
                   @ concat al @ concat blocks
          \<and> length blocks = length (b_transactions self)
          \<and> (\<forall>i < length blocks. ?f (?ts ! i) = Inr (blocks ! i))"
    using outp by blast
  then show ?thesis
    using sorted_py_sorted_transactions [of "b_transactions self"]
      stable_py_sorted_transactions [of _ "b_transactions self"]
    by blast
qed

theorem ledger_transactions_stable_sorted_witness:
  "(\<exists>outp. ledger_lines 10 ex_fmt_date ex_format_f ex_book = Inr outp)
   \<and> map t_guid (b_transactions ex_book) = [Some ''t1'', Some ''t2'', Some ''t3'']
   \<and> map t_guid (py_sorted Transaction_lt (b_transactions ex_book))
       = [Some ''t2'', Some ''t1'', Some ''t3'']
   \<and> sorted (map t_date (py_sorted Transaction_lt (b_transactions ex_book)))
   \<and> filter (\<lambda>t. t_date t = 3) (py_sorted Transaction_lt (b_transactions ex_book))
       = filter (\<lambda>t. t_date t = 3) (b_transactions ex_book)"
proof -
  have "\<not> isl (ledger_lines 10 ex_fmt_date ex_format_f ex_book)"
    by code_simp
  then have h: "ledger_lines 10 ex_fmt_date ex_format_f ex_book
                  = Inr (projr (ledger_lines 10 ex_fmt_date ex_format_f ex_book))"
    by (rule not_isl_Inr)
  have g: "map t_guid (b_transactions ex_book) = [Some ''t1'', Some ''t2'', Some ''t3'']"
    by code_simp
  have g': "map t_guid (py_sorted Transaction_lt (b_transactions ex_book))
              = [Some ''t2'', Some ''t1'', Some ''t3'']"
    by code_simp
  from ledger_transactions_stable_sorted [OF h] h g g' show ?thesis
    by blast
qed

text \<open>
  Claim C10. In the report, a transaction of the book that has no splits has a header
  line with the marker \<^verbatim>\<open>" *"\<close> right behind its date: the test that all its splits are
  reconciled holds of the empty list.
\<close>

lemma header_line_marker:
  "header_line fmt_date trn True = Inr h \<Longrightarrow> \<exists>rest. h = fmt_date (t_date trn) @ '' *'' @ rest"
  by (auto simp: header_line_def bind_err_Inr_iff)

theorem ledger_empty_transaction_marked:
  assumes "ledger_lines limit fmt_date format_f self = Inr outp"
    and "trn \<in> set (b_transactions self)"
    and "t_splits trn = []"
  shows "\<exists>rest. fmt_date (t_date trn) @ '' *'' @ rest \<in> set outp"
proof -
  let ?f = "transaction_lines limit fmt_date format_f (commodity_store self) (account_store self)"
  from assms(1) obtain al tl where
      tl: "map_err ?f (py_sorted Transaction_lt (b_transactions self)) = Inr tl"
    and outp: "outp = commodity_lines (commodity_store self) (b_commodities self)
                      @ concat al @ concat tl"
    by (auto simp: ledger_lines_def bind_err_Inr_iff)
  from assms(2) have "trn \<in> set (py_sorted Transaction_lt (b_transactions self))"
    by (simp add: set_py_sorted)
  with tl obtain block where block: "block \<in> set tl" "?f trn = Inr block"
    by (blast dest: map_err_mem)
  from block(2) assms(3) obtain h where
      h: "header_line fmt_date trn True = Inr h" "block = [h, []]"
    by (auto simp: transaction_lines_def bind_err_Inr_iff)
  from h(1) obtain rest where "h = fmt_date (t_date trn) @ '' *'' @ rest"
    by (blast dest: header_line_marker)
  moreover have "h \<in> set outp"
  proof -
    have "h \<in> set block" using h(2) by simp
    with block(1) have "h \<in> set (concat tl)" by auto
    with outp show ?thesis by simp
  qed
  ultimately show ?thesis by blast
qed

theorem ledger_empty_transaction_marked_witness:
  "t_splits (b_transactions ex_book ! 1) = []
   \<and> (\<exists>rest. ''2020/01/02 *'' @ rest
         \<in> set (projr (ledger_lines 10 ex_fmt_date ex_format_f ex_book)))"
proof -
  have "\<not> isl (ledger_lines 10 ex_fmt_date ex_format_f ex_book)"
    by code_simp
  then have h: "ledger_lines 10 ex_fmt_date ex_format_f ex_book
                  = Inr (projr (ledger_lines 10 ex_fmt_date ex_format_f ex_book))"
    by (rule not_isl_Inr)
  have m: "b_transactions ex_book ! 1 \<in> set (b_transactions ex_book)"
    by code_simp
  have e: "t_splits (b_transactions ex_book ! 1) = []"
    by code_simp
  have d: "ex_fmt_date (t_date (b_transactions ex_book ! 1)) @ '' *'' = ''2020/01/02 *''"
    by code_simp
  from ledger_empty_transaction_marked [OF h m e]
  obtain rest where "ex_fmt_date (t_date (b_transactions ex_book ! 1)) @ '' *'' @ rest
      \<in> set (projr (ledger_lines 10 ex_fmt_date ex_format_f ex_book))"
    by blast
  then have "''2020/01/02 *'' @ rest \<in> set (projr (ledger_lines 10 ex_fmt_date ex_format_f ex_book))"
    using d by (metis append_assoc)
  with e show ?thesis by blast
qed

text \<open>
  What \<^verbatim>\<open>parse\<close> does with an exception of the XML library: the \<^verbatim>\<open>ParseError\<close> of
  \<^verbatim>\<open>xml.etree\<close> becomes \<^verbatim>\<open>ValueError\<close>, every other exception passes unchanged.
\<close>

lemma parse_library_exception:
  "ElementTree_parse fobj = Inl e \<Longrightarrow>
     parse parse_date ElementTree_parse fobj = Inl (if e = ParseError then ValueError else e)"
  by (simp add: parse_def)

text \<open>
  Claim C9. A defect of the code: with \<^verbatim>\<open>lxml\<close> installed, which the module prefers, a
  stream that is not well-formed XML makes \<^verbatim>\<open>parse\<close> raise the \<^verbatim>\<open>XMLSyntaxError\<close> of
  \<^verbatim>\<open>lxml\<close> and not \<^verbatim>\<open>ValueError\<close>, the format error of the module, because the handler
  \<^verbatim>\<open>except ParseError\<close> names the class of \<^verbatim>\<open>xml.etree.ElementTree\<close>; \<^verbatim>\<open>from_filename\<close>
  on a compressed file whose content is not XML raises the same \<^verbatim>\<open>XMLSyntaxError\<close>. No
  book is returned. The same stream read with \<^verbatim>\<open>xml.etree\<close> gives \<^verbatim>\<open>ValueError\<close>, and a
  root element other than \<^verbatim>\<open>gnc-v2\<close> gives \<^verbatim>\<open>ValueError\<close> with either library.
\<close>

theorem parse_lxml_syntax_error_not_converted:
  "ex_lxml_parse ''junk'' = Inl XMLSyntaxError
   \<and> parse ex_parse_date ex_lxml_parse ''junk'' = Inl XMLSyntaxError
   \<and> from_filename ex_parse_date ex_lxml_parse ''junk'' ''junk'' = Inl XMLSyntaxError
   \<and> parse ex_parse_date ex_ElementTree_parse ''junk'' = Inl ValueError
   \<and> from_filename ex_parse_date ex_ElementTree_parse ''junk'' ''junk'' = Inl ValueError
   \<and> parse ex_parse_date ex_lxml_parse ''<html/>'' = Inl ValueError
   \<and> parse ex_parse_date ex_ElementTree_parse ''<html/>'' = Inl ValueError"
  by code_simp

subsection \<open>Slots of an unknown type\<close>








subsection \<open>The registry of commodities\<close>

lemma reg_le_refl: "reg_le x x"
  by (simp add: reg_le_def)

lemma reg_le_trans: "reg_le x y \<Longrightarrow> reg_le y z \<Longrightarrow> reg_le x z"
  by (auto simp: reg_le_def)

lemma registered_mono:
  "registered store cd r \<Longrightarrow> reg_le (store, cd) (store', cd') \<Longrightarrow> registered store' cd' r"
  by (auto simp: registered_def reg_le_def nth_append)

lemma reg_ok_registered: "reg_ok store cd \<Longrightarrow> map_of cd k = Some r \<Longrightarrow> registered store cd r"
proof -
  assume "reg_ok store cd" and k: "map_of cd k = Some r"
  then have "r < length store \<and> (c_space (store ! r), c_name (store ! r)) = k"
    unfolding reg_ok_def by blast
  with k show ?thesis
    unfolding registered_def by simp
qed


lemma Commodity_sel [simp]:
  "c_name (Commodity name space f) = name" "c_space (Commodity name space f) = space"
  by (simp_all add: Commodity_def)

lemma reg_ok_append: "reg_ok store cd \<Longrightarrow> reg_ok (store @ ext) cd"
  unfolding reg_ok_def by (fastforce simp: nth_append)

lemma reg_ok_extend:
  assumes "reg_ok store cd" and "map_of cd' = (map_of cd)(k \<mapsto> length store)"
    and "(c_space c, c_name c) = k"
  shows "reg_ok (store @ [c]) cd'"
  unfolding reg_ok_def
proof (intro allI impI)
  fix k' r
  assume h: "map_of cd' k' = Some r"
  show "r < length (store @ [c]) \<and> (c_space ((store @ [c]) ! r), c_name ((store @ [c]) ! r)) = k'"
  proof (cases "k' = k")
    case True
    with h assms(2) have "r = length store" by simp
    with True assms(3) show ?thesis by simp
  next
    case False
    with h assms(2) have "map_of cd k' = Some r" by simp
    with assms(1) have "r < length store \<and> (c_space (store ! r), c_name (store ! r)) = k'"
      unfolding reg_ok_def by blast
    then show ?thesis by (simp add: nth_append)
  qed
qed

lemma map_of_append_new:
  "map_of cd k = None \<Longrightarrow> map_of (cd @ [(k, v)]) = (map_of cd)(k \<mapsto> v)"
  by (auto simp: fun_eq_iff map_add_def split: option.splits)

lemma commodity_find_new:
  "map_of cd (space, name) = None \<Longrightarrow>
     commodity_find store cd space name =
       (length store, store @ [Commodity name space None], cd @ [((space, name), length store)])"
  by (simp add: commodity_find_def Let_def)

lemma commodity_find_old:
  "map_of cd (space, name) = Some r \<Longrightarrow>
     commodity_find store cd space name = (r, store @ [Commodity name space None], cd)"
  by (simp add: commodity_find_def Let_def)

lemma commodity_find_props:
  assumes "commodity_find store cd space name = (r, store', cd')" and "reg_ok store cd"
  shows "reg_ok store' cd'" and "reg_le (store, cd) (store', cd')"
    and "map_of cd' (space, name) = Some r"
proof -
  show "reg_ok store' cd'"
  proof (cases "map_of cd (space, name)")
    case None
    then have "store' = store @ [Commodity name space None]"
      and "map_of cd' = (map_of cd)((space, name) \<mapsto> length store)"
      using assms(1) by (auto simp: commodity_find_new map_of_append_new simp del: map_of_append)
    then show ?thesis
      using reg_ok_extend [OF assms(2), of cd' "(space, name)" "Commodity name space None"]
      by simp
  next
    case (Some r0)
    with assms show ?thesis
      by (auto simp: commodity_find_old intro: reg_ok_append)
  qed
  show "reg_le (store, cd) (store', cd')"
  proof (cases "map_of cd (space, name)")
    case None
    then have "store' = store @ [Commodity name space None]"
      and "map_of cd' = (map_of cd)((space, name) \<mapsto> length store)"
      using assms(1) by (auto simp: commodity_find_new map_of_append_new simp del: map_of_append)
    with None show ?thesis
      unfolding reg_le_def by auto
  next
    case (Some r0)
    with assms(1) show ?thesis
      unfolding reg_le_def by (auto simp: commodity_find_old)
  qed
  show "map_of cd' (space, name) = Some r"
    using assms(1)
    by (cases "map_of cd (space, name)")
       (auto simp: commodity_find_new commodity_find_old map_of_append_new simp del: map_of_append)
qed

lemma commodities_loop_reg_ok:
  "commodities_loop elts store cd commodities = Inr (store', cd', commodities') \<Longrightarrow>
     reg_ok store cd \<Longrightarrow> reg_ok store' cd'"
proof (induction elts arbitrary: store cd commodities)
  case Nil
  then show ?case by simp
next
  case (Cons child rest)
  from Cons.prems(1) obtain comm where
      comm: "commodity_from_tree child = Inr comm"
    and rest: "commodities_loop rest (store @ [comm])
                 (AList.update (c_space comm, c_name comm) (length store) cd)
                 (commodities @ [length store]) = Inr (store', cd', commodities')"
    by (auto split: sum.splits)
  have "reg_ok (store @ [comm]) (AList.update (c_space comm, c_name comm) (length store) cd)"
    using Cons.prems(2) by (rule reg_ok_extend) (simp_all add: update_conv')
  with rest show ?case by (rule Cons.IH)
qed

lemma price_from_tree_props:
  assumes "price_from_tree pd tree store cd = Inr (price, store', cd')" and "reg_ok store cd"
  shows "reg_ok store' cd'" and "reg_le (store, cd) (store', cd')"
    and "registered store' cd' (p_currency price)" and "registered store' cd' (p_commodity price)"
proof -
  from assms(1) obtain cs cn ms mn where
      eq: "p_currency price = fst (commodity_find store cd cs cn)"
        "p_commodity price =
           fst (commodity_find (fst (snd (commodity_find store cd cs cn)))
             (snd (snd (commodity_find store cd cs cn))) ms mn)"
        "(store', cd') =
           snd (commodity_find (fst (snd (commodity_find store cd cs cn)))
             (snd (snd (commodity_find store cd cs cn))) ms mn)"
    by (auto simp: price_from_tree_def bind_err_Inr_iff Let_def case_prod_beta)
  obtain r1 s1 d1 where f1: "commodity_find store cd cs cn = (r1, s1, d1)"
    by (rule prod_cases3)
  obtain r2 where
      f2: "commodity_find s1 d1 ms mn = (r2, store', cd')"
    and p: "p_currency price = r1" "p_commodity price = r2"
    using eq f1 by (cases "commodity_find s1 d1 ms mn") simp
  note a = commodity_find_props [OF f1 assms(2)]
  note b = commodity_find_props [OF f2 a(1)]
  show "reg_ok store' cd'" by (rule b(1))
  show "reg_le (store, cd) (store', cd')" using a(2) b(2) by (rule reg_le_trans)
  have "registered s1 d1 r1" using a(1) a(3) by (rule reg_ok_registered)
  then show "registered store' cd' (p_currency price)"
    using b(2) p(1) by (auto intro: registered_mono)
  show "registered store' cd' (p_commodity price)"
    using b(1) b(3) p(2) by (auto intro: reg_ok_registered)
qed

lemma prices_loop_props:
  assumes "prices_loop pd elts store cd prices = Inr (prices', store', cd')"
    and "reg_ok store cd"
    and "\<forall>p \<in> set prices. registered store cd (p_currency p) \<and> registered store cd (p_commodity p)"
  shows "reg_ok store' cd' \<and> reg_le (store, cd) (store', cd')
         \<and> (\<forall>p \<in> set prices'. registered store' cd' (p_currency p)
                \<and> registered store' cd' (p_commodity p))"
  using assms
proof (induction elts arbitrary: store cd prices)
  case Nil
  then show ?case by (simp add: reg_le_refl)
next
  case (Cons child rest)
  from Cons.prems(1) obtain price s1 d1 where
      p: "price_from_tree pd child store cd = Inr (price, s1, d1)"
    and rest: "prices_loop pd rest s1 d1 (prices @ [price]) = Inr (prices', store', cd')"
    by (auto split: sum.splits)
  note a = price_from_tree_props [OF p Cons.prems(2)]
  have "\<forall>p \<in> set (prices @ [price]). registered s1 d1 (p_currency p) \<and> registered s1 d1 (p_commodity p)"
    using Cons.prems(3) a(2) a(3) a(4) by (auto intro: registered_mono)
  from Cons.IH [OF rest a(1) this] a(2) show ?case
    by (blast intro: reg_le_trans)
qed

lemma account_from_tree_commodity:
  assumes "account_from_tree pd tree cd = Inr (pg, acc)"
  shows "(a_actype acc = Some ''ROOT'' \<and> a_commodity acc = None \<and> pg = None)
       \<or> (a_actype acc \<noteq> Some ''ROOT''
          \<and> (\<exists>s n r. find_text [ns_act @ ''commodity'', ns_cmdty @ ''space''] tree = Inr s
                \<and> find_text [ns_act @ ''commodity'', ns_cmdty @ ''id''] tree = Inr n
                \<and> map_of cd (s, n) = Some r \<and> a_commodity acc = Some r))"
  using assms
  by (auto simp: account_from_tree_def bind_err_Inr_iff Let_def Account_def getitem_def
           split: if_splits option.splits)

lemma account_from_tree_fresh:
  assumes "account_from_tree pd tree cd = Inr (pg, acc)"
  shows "a_parent acc = None" "a_children acc = []" "a_splits acc = []"
  using assms
  by (auto simp: account_from_tree_def bind_err_Inr_iff Let_def Account_def
           split: if_splits)

lemma transaction_from_tree_currency:
  assumes "transaction_from_tree pd tree ad cd ti store = Inr (trn, store')"
  shows "\<exists>s n. find_text [ns_trn @ ''currency'', ns_cmdty @ ''space''] tree = Inr s
            \<and> find_text [ns_trn @ ''currency'', ns_cmdty @ ''id''] tree = Inr n
            \<and> map_of cd (s, n) = Some (t_currency trn)"
  using assms
  by (auto simp: transaction_from_tree_def bind_err_Inr_iff Let_def Transaction_def getitem_def
           split: option.splits prod.splits)

subsection \<open>The store of accounts\<close>

lemma map_update_same:
  assumes "\<And>a. f (g a) = f a"
  shows "map f (xs[i := g (xs ! i)]) = map f xs"
proof (cases "i < length xs")
  case True
  then show ?thesis
    by (simp add: map_update assms list_update_same_conv)
next
  case False
  then have "length xs \<le> i" by simp
  then show ?thesis by (simp only: list_update_beyond)
qed

lemma set_update_subset: "set (AList.update k v al) \<subseteq> insert (k, v) (set al)"
  by (induction al) auto

lemma ad_ok_map_of:
  "ad_ok store ad \<Longrightarrow> map_of ad g = Some r \<Longrightarrow> r < length store \<and> a_guid (store ! r) = g"
  by (auto simp: ad_ok_def dest!: map_of_SomeD)

lemma ad_ok_values:
  "ad_ok store ad \<Longrightarrow> r \<in> set (map snd ad) \<Longrightarrow>
     r < length store \<and> map_of ad (a_guid (store ! r)) = Some r"
  by (fastforce simp: ad_ok_def)

lemma ad_ok_distinct_values:
  assumes "ad_ok store ad"
  shows "distinct (map snd ad)"
proof -
  have "map fst ad = map (\<lambda>r. a_guid (store ! r)) (map snd ad)"
    using assms by (auto simp: ad_ok_def)
  moreover have "distinct (map fst ad)"
    using assms by (simp add: ad_ok_def)
  ultimately show ?thesis
    by (metis distinct_map)
qed

lemma ad_ok_step:
  assumes "ad_ok store ad"
  shows "ad_ok (store @ [acc]) (AList.update (a_guid acc) (length store) ad)"
  unfolding ad_ok_def
proof (intro conjI ballI)
  show "distinct (map fst (AList.update (a_guid acc) (length store) ad))"
    using assms by (simp add: ad_ok_def distinct_update)
next
  fix x
  assume "x \<in> set (AList.update (a_guid acc) (length store) ad)"
  then have "x = (a_guid acc, length store) \<or> x \<in> set ad"
    using set_update_subset by fastforce
  then show "case x of (g, r) \<Rightarrow> r < length (store @ [acc]) \<and> a_guid ((store @ [acc]) ! r) = g"
    using assms by (auto simp: ad_ok_def nth_append)
qed

text \<open>The first pass.\<close>

lemma accounts_loop_props:
  assumes "accounts_loop pd elts cd store root ad pdict = Inr (store', root', ad', pdict')"
    and "ad_ok store ad"
    and "\<forall>acc \<in> set store. fresh acc \<and> P acc"
    and "\<forall>r. root = Some r \<longrightarrow> r < length store \<and> a_actype (store ! r) = Some ''ROOT''"
    and "fst ` set pdict = fst ` set ad"
    and "\<And>tree pg acc. account_from_tree pd tree cd = Inr (pg, acc) \<Longrightarrow> P acc"
  shows "ad_ok store' ad' \<and> (\<forall>acc \<in> set store'. fresh acc \<and> P acc)
       \<and> (\<forall>r. root' = Some r \<longrightarrow> r < length store' \<and> a_actype (store' ! r) = Some ''ROOT'')
       \<and> fst ` set pdict' = fst ` set ad'"
  using assms(1-5)
proof (induction elts arbitrary: store root ad pdict)
  case Nil
  then show ?case by simp
next
  case (Cons child rest)
  from Cons.prems(1) obtain pg acc where
      acc: "account_from_tree pd child cd = Inr (pg, acc)"
    and rest: "accounts_loop pd rest cd (store @ [acc])
                 (if a_actype acc = Some ''ROOT'' then Some (length store) else root)
                 (AList.update (a_guid acc) (length store) ad)
                 (AList.update (a_guid acc) pg pdict) = Inr (store', root', ad', pdict')"
    by (auto split: sum.splits)
  have 1: "ad_ok (store @ [acc]) (AList.update (a_guid acc) (length store) ad)"
    using Cons.prems(2) by (rule ad_ok_step)
  have "fresh acc"
    using account_from_tree_fresh [OF acc] by (simp add: fresh_def)
  moreover have "P acc"
    using acc by (rule assms(6))
  ultimately have 2: "\<forall>a \<in> set (store @ [acc]). fresh a \<and> P a"
    using Cons.prems(3) by auto
  have 3: "\<forall>r. (if a_actype acc = Some ''ROOT'' then Some (length store) else root) = Some r
             \<longrightarrow> r < length (store @ [acc]) \<and> a_actype ((store @ [acc]) ! r) = Some ''ROOT''"
    using Cons.prems(4) by (auto simp: nth_append)
  have 4: "fst ` set (AList.update (a_guid acc) pg pdict)
             = fst ` set (AList.update (a_guid acc) (length store) ad)"
    using Cons.prems(5) by (simp add: dom_update)
  from Cons.IH [OF rest 1 2 3 4] show ?case .
qed

lemma getitem_chain:
  "bind_err (getitem pdict g) (getitem ad) = Inr p \<longleftrightarrow>
     (\<exists>pg. map_of pdict g = Some pg \<and> map_of ad pg = Some p)"
  by (auto simp: bind_err_Inr_iff getitem_def split: option.splits)

lemma nth_map_eq: "map f xs = map f ys \<Longrightarrow> i < length xs \<Longrightarrow> f (xs ! i) = f (ys ! i)"
  by (metis length_map nth_map)

lemma link_loop_inv:
  assumes "link_loop rest ad pdict store accounts = Inr (store', accounts')"
    and "link_inv ad pdict store0 done store"
    and "ad_ok store0 ad"
    and "distinct (done @ rest)"
    and "set rest \<subseteq> {..<length store0}"
  shows "link_inv ad pdict store0 (done @ rest) store'
       \<and> accounts' = accounts @ filter (linked store0) rest
       \<and> (\<forall>r \<in> set rest. linked store0 r \<longrightarrow> target ad pdict store0 r \<noteq> None)"
  using assms(1,2,4,5)
proof (induction rest arbitrary: store accounts "done")
  case Nil
  then show ?case by simp
next
  case (Cons r rest)
  have r: "r < length store0" "r \<notin> set done" "r \<notin> set rest"
    using Cons.prems(3,4) by auto
  note inv = Cons.prems(2)
  have len: "length store = length store0"
    using inv by (simp add: link_inv_def)
  have guid: "a_guid (store ! r) = a_guid (store0 ! r)"
    using inv r(1) len by (auto simp: link_inv_def intro: nth_map_eq)
  have actype: "a_actype (store ! r) = a_actype (store0 ! r)"
    using inv r(1) len by (auto simp: link_inv_def intro: nth_map_eq)
  have parent: "a_parent (store ! r) = None"
    using inv r by (simp add: link_inv_def)
  show ?case
  proof (cases "linked store0 r")
    case False
    then have rest: "link_loop rest ad pdict store accounts = Inr (store', accounts')"
      using Cons.prems(1) actype by (simp add: linked_def)
    have "link_inv ad pdict store0 (done @ [r]) store"
      using inv False by (auto simp: link_inv_def)
    from Cons.IH [OF rest this] Cons.prems(3,4) False show ?thesis
      by auto
  next
    case True
    then have cond: "a_parent (store ! r) = None \<and> a_actype (store ! r) \<noteq> Some ''ROOT''"
      using parent actype by (simp add: linked_def)
    with Cons.prems(1) obtain p where
        p: "bind_err (getitem pdict (a_guid (store ! r))) (getitem ad) = Inr p"
      by (auto split: sum.splits)
    then have tgt: "target ad pdict store0 r = Some p"
      using guid by (auto simp: getitem_chain target_def)
    have plt: "p < length store0"
      using p assms(3) by (auto simp: getitem_chain dest: ad_ok_map_of)
    define s1 where "s1 = store[r := (store ! r)\<lparr>a_parent := Some p\<rparr>]"
    define s2 where "s2 = s1[p := (s1 ! p)\<lparr>a_children := a_children (s1 ! p) @ [r]\<rparr>]"
    have rest: "link_loop rest ad pdict s2 (accounts @ [r]) = Inr (store', accounts')"
      using Cons.prems(1) cond p by (simp add: s1_def s2_def Let_def)
    have ch1: "a_children (s1 ! p) = a_children (store ! p)"
      using plt len r(1) by (cases "p = r") (simp_all add: s1_def)
    have "link_inv ad pdict store0 (done @ [r]) s2"
      unfolding link_inv_def
    proof (intro conjI allI impI)
      show "length s2 = length store0"
        using len by (simp add: s1_def s2_def)
      show "map a_guid s2 = map a_guid store0"
        using inv by (simp add: s1_def s2_def map_update_same link_inv_def)
      show "map a_actype s2 = map a_actype store0"
        using inv by (simp add: s1_def s2_def map_update_same link_inv_def)
      show "map a_commodity s2 = map a_commodity store0"
        using inv by (simp add: s1_def s2_def map_update_same link_inv_def)
      show "map a_splits s2 = map a_splits store0"
        using inv by (simp add: s1_def s2_def map_update_same link_inv_def)
    next
      fix x
      assume x: "x < length store0"
      have "a_parent (s2 ! x) = a_parent (s1 ! x)"
        using x len by (cases "x = p") (simp_all add: s2_def s1_def)
      also have "\<dots> = (if x = r then Some p else a_parent (store ! x))"
        using x len by (simp add: s1_def)
      finally show "a_parent (s2 ! x) =
          (if x \<in> set (done @ [r]) \<and> linked store0 x then target ad pdict store0 x else None)"
        using inv x True tgt by (auto simp: link_inv_def)
    next
      fix x
      assume x: "x < length store0"
      have "a_children (s2 ! x) = (if x = p then a_children (s1 ! p) @ [r] else a_children (s1 ! x))"
        using x len by (simp add: s2_def s1_def)
      moreover have "a_children (s1 ! x) = a_children (store ! x)"
        using x len by (cases "x = r") (simp_all add: s1_def)
      ultimately show "a_children (s2 ! x) =
          filter (\<lambda>r. linked store0 r \<and> target ad pdict store0 r = Some x) (done @ [r])"
        using inv x True tgt ch1 by (auto simp: link_inv_def)
    qed
    from Cons.IH [OF rest this] Cons.prems(3,4) True tgt show ?thesis
      by auto
  qed
qed

lemma static_eq_refl: "static_eq store store"
  by (simp add: static_eq_def)

lemma static_eq_trans: "static_eq a b \<Longrightarrow> static_eq b c \<Longrightarrow> static_eq a c"
  by (simp add: static_eq_def)

lemma split_from_tree_static:
  assumes "split_from_tree pd tree ad ti si store = Inr (split, store')"
  shows "static_eq store store'"
proof -
  from assms obtain account where
    "store' = store[account := (store ! account)
               \<lparr>a_splits := a_splits (store ! account) @ [(ti, si)]\<rparr>]"
    by (auto simp: split_from_tree_def bind_err_Inr_iff Let_def)
  then show ?thesis
    by (simp add: static_eq_def map_update_same)
qed

lemma splits_loop_static:
  "splits_loop pd elts ad ti splits store = Inr (splits', store') \<Longrightarrow> static_eq store store'"
proof (induction elts arbitrary: splits store)
  case Nil
  then show ?case by (simp add: static_eq_refl)
next
  case (Cons subtree rest)
  from Cons.prems obtain split s1 where
      a: "split_from_tree pd subtree ad ti (length splits) store = Inr (split, s1)"
    and b: "splits_loop pd rest ad ti (splits @ [split]) s1 = Inr (splits', store')"
    by (auto split: sum.splits)
  from split_from_tree_static [OF a] Cons.IH [OF b] show ?case
    by (rule static_eq_trans)
qed

lemma transaction_from_tree_static:
  assumes "transaction_from_tree pd tree ad cd ti store = Inr (trn, store')"
  shows "static_eq store store'"
proof -
  from assms obtain splits where
    "splits_loop pd (findall [ns_trn @ ''splits'', ns_trn @ ''split''] tree) ad ti [] store
       = Inr (splits, store')"
    by (auto simp: transaction_from_tree_def bind_err_Inr_iff Let_def)
  then show ?thesis by (rule splits_loop_static)
qed

lemma transactions_loop_props:
  assumes "transactions_loop pd elts ad cd transactions store = Inr (transactions', store')"
    and "\<forall>t \<in> set transactions. \<exists>k. map_of cd k = Some (t_currency t)"
  shows "static_eq store store' \<and> (\<forall>t \<in> set transactions'. \<exists>k. map_of cd k = Some (t_currency t))"
  using assms
proof (induction elts arbitrary: transactions store)
  case Nil
  then show ?case by (simp add: static_eq_refl)
next
  case (Cons child rest)
  from Cons.prems(1) obtain trn s1 where
      a: "transaction_from_tree pd child ad cd (length transactions) store = Inr (trn, s1)"
    and b: "transactions_loop pd rest ad cd (transactions @ [trn]) s1 = Inr (transactions', store')"
    by (auto split: sum.splits)
  have "\<exists>k. map_of cd k = Some (t_currency trn)"
    using transaction_from_tree_currency [OF a] by blast
  with Cons.prems(2) have "\<forall>t \<in> set (transactions @ [trn]). \<exists>k. map_of cd k = Some (t_currency t)"
    by auto
  from Cons.IH [OF b this] transaction_from_tree_static [OF a] show ?case
    by (blast intro: static_eq_trans)
qed

subsection \<open>The assembly of the book\<close>

lemma book_from_tree_assembled:
  assumes "book_from_tree pd t = Inr b"
  shows "\<exists>tree cd store1 ad pdict store2.
           t = Some tree \<and> assembled pd tree b cd store1 ad pdict store2"
proof (cases t)
  case None
  with assms show ?thesis by (simp add: book_from_tree_def)
next
  case (Some tree)
  with assms show ?thesis
    unfolding book_from_tree_def assembled_def
    by (auto simp: bind_err_Inr_iff split: prod.splits)
qed

lemma assembled_registry:
  assumes "assembled pd tree b cd store1 ad pdict store2"
  shows "reg_ok (commodity_store b) cd"
    and "\<forall>p \<in> set (b_prices b). registered (commodity_store b) cd (p_currency p)
            \<and> registered (commodity_store b) cd (p_commodity p)"
proof -
  from assms obtain cs0 cd0 where
      c: "commodities_loop (findall [ns_gnc @ ''commodity''] tree) [] [] []
            = Inr (cs0, cd0, b_commodities b)"
    and p: "(case find_path [ns_gnc @ ''pricedb''] tree of
              None \<Rightarrow> Inr ([], cs0, cd0)
            | Some t \<Rightarrow> prices_loop pd (findall [''price''] t) cs0 cd0 [])
            = Inr (b_prices b, commodity_store b, cd)"
    unfolding assembled_def by blast
  have r0: "reg_ok cs0 cd0"
    using c by (rule commodities_loop_reg_ok) (simp add: reg_ok_def)
  have "reg_ok (commodity_store b) cd
        \<and> (\<forall>p \<in> set (b_prices b). registered (commodity_store b) cd (p_currency p)
              \<and> registered (commodity_store b) cd (p_commodity p))"
  proof (cases "find_path [ns_gnc @ ''pricedb''] tree")
    case None
    with p r0 show ?thesis by auto
  next
    case (Some t)
    with p have "prices_loop pd (findall [''price''] t) cs0 cd0 []
                   = Inr (b_prices b, commodity_store b, cd)"
      by simp
    from prices_loop_props [OF this r0] show ?thesis by simp
  qed
  then show "reg_ok (commodity_store b) cd"
    and "\<forall>p \<in> set (b_prices b). registered (commodity_store b) cd (p_currency p)
            \<and> registered (commodity_store b) cd (p_commodity p)"
    by blast+
qed

lemma assembled_accounts:
  assumes "assembled pd tree b cd store1 ad pdict store2"
  shows "ad_ok store1 ad"
    and "\<forall>acc \<in> set store1. fresh acc
           \<and> (\<forall>r. a_commodity acc = Some r \<longrightarrow> registered (commodity_store b) cd r)"
    and "\<forall>r. b_root_account b = Some r \<longrightarrow> r < length store1 \<and> a_actype (store1 ! r) = Some ''ROOT''"
    and "fst ` set pdict = fst ` set ad"
    and "link_inv ad pdict store1 (map snd ad) store2"
    and "b_accounts b = filter (linked store1) (map snd ad)"
    and "\<forall>r \<in> set (map snd ad). linked store1 r \<longrightarrow> target ad pdict store1 r \<noteq> None"
    and "static_eq store2 (account_store b)"
    and "\<forall>t \<in> set (b_transactions b). registered (commodity_store b) cd (t_currency t)"
proof -
  from assms have
      a: "accounts_loop pd (findall [ns_gnc @ ''account''] tree) cd [] None [] []
            = Inr (store1, b_root_account b, ad, pdict)"
    and l: "link_loop (map snd ad) ad pdict store1 [] = Inr (store2, b_accounts b)"
    and t: "transactions_loop pd (findall [ns_gnc @ ''transaction''] tree) ad cd [] store2
              = Inr (b_transactions b, account_store b)"
    unfolding assembled_def by blast+
  note reg = assembled_registry [OF assms]
  have P: "\<forall>r. a_commodity acc = Some r \<longrightarrow> registered (commodity_store b) cd r"
    if "account_from_tree pd tr cd = Inr (pg, acc)" for tr pg acc
    using account_from_tree_commodity [OF that] reg(1)
    by (auto intro: reg_ok_registered)
  have props: "ad_ok store1 ad
       \<and> (\<forall>acc \<in> set store1. fresh acc
             \<and> (\<forall>r. a_commodity acc = Some r \<longrightarrow> registered (commodity_store b) cd r))
       \<and> (\<forall>r. b_root_account b = Some r \<longrightarrow> r < length store1 \<and> a_actype (store1 ! r) = Some ''ROOT'')
       \<and> fst ` set pdict = fst ` set ad"
    by (rule accounts_loop_props [OF a, where P = "\<lambda>acc. \<forall>r. a_commodity acc = Some r
            \<longrightarrow> registered (commodity_store b) cd r"])
       (auto simp: ad_ok_def dest: P)
  then show "ad_ok store1 ad"
    and "\<forall>acc \<in> set store1. fresh acc
           \<and> (\<forall>r. a_commodity acc = Some r \<longrightarrow> registered (commodity_store b) cd r)"
    and "\<forall>r. b_root_account b = Some r \<longrightarrow> r < length store1 \<and> a_actype (store1 ! r) = Some ''ROOT''"
    and "fst ` set pdict = fst ` set ad"
    by blast+
  have init: "link_inv ad pdict store1 [] store1"
    using props by (auto simp: link_inv_def fresh_def)
  have d: "distinct ([] @ map snd ad)"
    using props by (auto dest: ad_ok_distinct_values)
  have s: "set (map snd ad) \<subseteq> {..<length store1}"
    using props ad_ok_values [of store1 ad] by auto
  from link_loop_inv [OF l init _ d s] props
  show "link_inv ad pdict store1 (map snd ad) store2"
    and "b_accounts b = filter (linked store1) (map snd ad)"
    and "\<forall>r \<in> set (map snd ad). linked store1 r \<longrightarrow> target ad pdict store1 r \<noteq> None"
    by auto
  from transactions_loop_props [OF t] reg(1)
  show "static_eq store2 (account_store b)"
    and "\<forall>t \<in> set (b_transactions b). registered (commodity_store b) cd (t_currency t)"
    by (auto intro: reg_ok_registered)
qed


lemma static_eq_nth:
  assumes "static_eq s s'" and "i < length s"
  shows "a_guid (s' ! i) = a_guid (s ! i)" "a_actype (s' ! i) = a_actype (s ! i)"
    "a_commodity (s' ! i) = a_commodity (s ! i)" "a_parent (s' ! i) = a_parent (s ! i)"
    "a_children (s' ! i) = a_children (s ! i)"
  using assms by (auto simp: static_eq_def intro: nth_map_eq)

lemma link_inv_nth:
  assumes "link_inv ad pdict s0 dn s" and "i < length s0"
  shows "a_guid (s ! i) = a_guid (s0 ! i)" "a_actype (s ! i) = a_actype (s0 ! i)"
    "a_commodity (s ! i) = a_commodity (s0 ! i)"
  using assms by (auto simp: link_inv_def intro: nth_map_eq)

text \<open>The fields of the accounts of the book, by the two passes.\<close>

lemma assembled_fields:
  assumes "assembled pd tree b cd store1 ad pdict store2" and "i < length store1"
  shows "length (account_store b) = length store1"
    and "a_guid (account_store b ! i) = a_guid (store1 ! i)"
    and "a_actype (account_store b ! i) = a_actype (store1 ! i)"
    and "a_commodity (account_store b ! i) = a_commodity (store1 ! i)"
    and "a_parent (account_store b ! i) =
           (if i \<in> set (map snd ad) \<and> linked store1 i then target ad pdict store1 i else None)"
    and "a_children (account_store b ! i) =
           filter (\<lambda>r. linked store1 r \<and> target ad pdict store1 r = Some i) (map snd ad)"
proof -
  note acc = assembled_accounts [OF assms(1)]
  have len2: "length store2 = length store1"
    using acc(5) by (simp add: link_inv_def)
  then have i2: "i < length store2"
    using assms(2) by simp
  show "length (account_store b) = length store1"
    using acc(8) len2 by (simp add: static_eq_def)
  show "a_guid (account_store b ! i) = a_guid (store1 ! i)"
    using static_eq_nth(1) [OF acc(8) i2] link_inv_nth(1) [OF acc(5) assms(2)] by simp
  show "a_actype (account_store b ! i) = a_actype (store1 ! i)"
    using static_eq_nth(2) [OF acc(8) i2] link_inv_nth(2) [OF acc(5) assms(2)] by simp
  show "a_commodity (account_store b ! i) = a_commodity (store1 ! i)"
    using static_eq_nth(3) [OF acc(8) i2] link_inv_nth(3) [OF acc(5) assms(2)] by simp
  show "a_parent (account_store b ! i) =
           (if i \<in> set (map snd ad) \<and> linked store1 i then target ad pdict store1 i else None)"
    using static_eq_nth(4) [OF acc(8) i2] acc(5) assms(2) by (simp add: link_inv_def)
  show "a_children (account_store b ! i) =
           filter (\<lambda>r. linked store1 r \<and> target ad pdict store1 r = Some i) (map snd ad)"
    using static_eq_nth(5) [OF acc(8) i2] acc(5) assms(2) by (simp add: link_inv_def)
qed



subsection \<open>The parents of the accounts\<close>

lemma count_list_filter_distinct:
  "distinct xs \<Longrightarrow> x \<in> set xs \<Longrightarrow> P x \<Longrightarrow> count_list (filter P xs) x = 1"
  by (induction xs) (auto simp: count_list_0_iff)

lemma accounts_loop_keys:
  assumes "accounts_loop pd elts cd store root ad pdict = Inr (store', root', ad', pdict')"
    and "\<forall>i < length store. a_guid (store ! i) \<in> fst ` set ad"
  shows "\<forall>i < length store'. a_guid (store' ! i) \<in> fst ` set ad'"
  using assms
proof (induction elts arbitrary: store root ad pdict)
  case Nil
  then show ?case by simp
next
  case (Cons child rest)
  from Cons.prems(1) obtain pg acc where
    rest: "accounts_loop pd rest cd (store @ [acc])
                 (if a_actype acc = Some ''ROOT'' then Some (length store) else root)
                 (AList.update (a_guid acc) (length store) ad)
                 (AList.update (a_guid acc) pg pdict) = Inr (store', root', ad', pdict')"
    by (auto split: sum.splits)
  have "\<forall>i < length (store @ [acc]). a_guid ((store @ [acc]) ! i)
          \<in> fst ` set (AList.update (a_guid acc) (length store) ad)"
    using Cons.prems(2) by (auto simp: dom_update nth_append less_Suc_eq)
  from Cons.IH [OF rest this] show ?case .
qed

text \<open>
  Claim C2. When \<^verbatim>\<open>_book_from_tree\<close> has returned a book, every account of its list of
  accounts, these are the accounts of the dictionary that are not of type \<^verbatim>\<open>ROOT\<close>, has
  as its parent the account that the dictionary holds under the parent identifier
  recorded for it in the first pass, that account has this identifier, and the account
  stands exactly once among the children of its parent. An account of type \<^verbatim>\<open>ROOT\<close> has no
  parent. When the identifiers of the accounts of the document are distinct, the
  dictionary holds every account.
\<close>

theorem accounts_linked_to_recorded_parent:
  assumes "book_from_tree parse_date t = Inr b"
  shows "\<exists>tree cd store1 ad pdict.
           t = Some tree
         \<and> accounts_loop parse_date (findall [ns_gnc @ ''account''] tree) cd [] None [] []
             = Inr (store1, b_root_account b, ad, pdict)
         \<and> length (account_store b) = length store1
         \<and> map a_guid (account_store b) = map a_guid store1
         \<and> b_accounts b
             = filter (\<lambda>r. a_actype (account_store b ! r) \<noteq> Some ''ROOT'') (map snd ad)
         \<and> (\<forall>r \<in> set (b_accounts b). \<exists>pg p.
               map_of pdict (a_guid (account_store b ! r)) = Some pg
             \<and> map_of ad pg = Some p
             \<and> a_guid (account_store b ! p) = pg
             \<and> a_parent (account_store b ! r) = Some p
             \<and> count_list (a_children (account_store b ! p)) r = 1)
         \<and> (\<forall>r < length (account_store b).
               a_actype (account_store b ! r) = Some ''ROOT''
               \<longrightarrow> a_parent (account_store b ! r) = None)
         \<and> (distinct (map a_guid store1) \<longrightarrow> set (map snd ad) = {..<length store1})"
proof -
  from book_from_tree_assembled [OF assms] obtain tree cd store1 ad pdict store2 where
      t: "t = Some tree"
    and a: "assembled parse_date tree b cd store1 ad pdict store2"
    by blast
  note acc = assembled_accounts [OF a]
  note fld = assembled_fields [OF a]
  let ?s = "account_store b"
  have loop: "accounts_loop parse_date (findall [ns_gnc @ ''account''] tree) cd [] None [] []
             = Inr (store1, b_root_account b, ad, pdict)"
    using a by (simp add: assembled_def)
  have refs: "\<forall>r \<in> set (map snd ad). r < length store1"
    using ad_ok_values [OF acc(1)] by blast
  have len: "length ?s = length store1"
  proof (cases "store1 = []")
    case True
    then show ?thesis
      using acc(5,8) by (simp add: static_eq_def link_inv_def)
  next
    case False
    then have "0 < length store1" by simp
    then show ?thesis by (rule fld(1))
  qed
  have guids: "map a_guid ?s = map a_guid store1"
    by (rule nth_equalityI) (simp_all add: len fld(2))
  have accounts: "b_accounts b = filter (\<lambda>r. a_actype (?s ! r) \<noteq> Some ''ROOT'') (map snd ad)"
    unfolding acc(6)
  proof (rule filter_cong [OF refl])
    fix r
    assume "r \<in> set (map snd ad)"
    with refs have "r < length store1" by blast
    then show "linked store1 r = (a_actype (?s ! r) \<noteq> Some ''ROOT'')"
      using fld(3) by (simp add: linked_def)
  qed
  have linked: "\<exists>pg p. map_of pdict (a_guid (?s ! r)) = Some pg \<and> map_of ad pg = Some p
             \<and> a_guid (?s ! p) = pg \<and> a_parent (?s ! r) = Some p
             \<and> count_list (a_children (?s ! p)) r = 1"
    if "r \<in> set (b_accounts b)" for r
  proof -
    from that have r: "r \<in> set (map snd ad)" "linked store1 r"
      unfolding acc(6) by auto
    then have r1: "r < length store1"
      using refs by blast
    from r acc(7) obtain p where p: "target ad pdict store1 r = Some p"
      by blast
    then obtain pg where pg: "map_of pdict (a_guid (store1 ! r)) = Some pg" "map_of ad pg = Some p"
      by (auto simp: target_def split: option.splits)
    have p1: "p < length store1" "a_guid (store1 ! p) = pg"
      using ad_ok_map_of [OF acc(1) pg(2)] by auto
    have "count_list (filter (\<lambda>x. linked store1 x \<and> target ad pdict store1 x = Some p)
            (map snd ad)) r = 1"
      using ad_ok_distinct_values [OF acc(1)] r p by (intro count_list_filter_distinct) auto
    then show ?thesis
      using pg p p1 r fld(2) [OF r1] fld(2) [OF p1(1)] fld(5) [OF r1] fld(6) [OF p1(1)]
      by simp
  qed
  have root: "a_parent (?s ! r) = None"
    if "r < length ?s" "a_actype (?s ! r) = Some ''ROOT''" for r
  proof -
    from that(1) have r1: "r < length store1"
      using len by simp
    with that(2) have "\<not> linked store1 r"
      using fld(3) [OF r1] by (simp add: linked_def)
    then show ?thesis
      using fld(5) [OF r1] by simp
  qed
  have all: "set (map snd ad) = {..<length store1}" if d: "distinct (map a_guid store1)"
  proof -
    have keys: "\<forall>i < length store1. a_guid (store1 ! i) \<in> fst ` set ad"
      using accounts_loop_keys [OF loop] by simp
    have "i \<in> set (map snd ad)" if i: "i < length store1" for i
    proof -
      from keys i obtain j where j: "map_of ad (a_guid (store1 ! i)) = Some j"
        by (metis weak_map_of_SomeI domD domI dom_map_of_conv_image_fst)
      then have "j < length store1" "a_guid (store1 ! j) = a_guid (store1 ! i)"
        using ad_ok_map_of [OF acc(1) j] by auto
      with d i have "j = i"
        by (auto simp: distinct_conv_nth)
      with j have "(a_guid (store1 ! i), i) \<in> set ad"
        by (auto dest: map_of_SomeD)
      then show ?thesis
        by (force simp: image_iff)
    qed
    with refs show ?thesis by auto
  qed
  from t loop len guids accounts linked root all show ?thesis
    by blast
qed

subsection \<open>Who extends the registry\<close>

lemma commodity_find_registers:
  assumes "commodity_find store cd space name = (r, store', cd')"
  shows "map_of cd' (space, name) = Some r"
    and "\<forall>k v. map_of cd k = Some v \<longrightarrow> map_of cd' k = Some v"
  using assms
  by (cases "map_of cd (space, name)";
      auto simp: commodity_find_new commodity_find_old map_of_append_new
           simp del: map_of_append)+

lemma price_from_tree_registers:
  assumes "price_from_tree pd tree store cd = Inr (price, store', cd')"
  shows "\<exists>cs cn ms mn.
           find_text [ns_price @ ''currency'', ns_cmdty @ ''space''] tree = Inr cs
         \<and> find_text [ns_price @ ''currency'', ns_cmdty @ ''id''] tree = Inr cn
         \<and> find_text [ns_price @ ''commodity'', ns_cmdty @ ''space''] tree = Inr ms
         \<and> find_text [ns_price @ ''commodity'', ns_cmdty @ ''id''] tree = Inr mn
         \<and> map_of cd' (cs, cn) = Some (p_currency price)
         \<and> map_of cd' (ms, mn) = Some (p_commodity price)"
proof -
  from assms obtain cs cn ms mn where
      t: "find_text [ns_price @ ''currency'', ns_cmdty @ ''space''] tree = Inr cs"
         "find_text [ns_price @ ''currency'', ns_cmdty @ ''id''] tree = Inr cn"
         "find_text [ns_price @ ''commodity'', ns_cmdty @ ''space''] tree = Inr ms"
         "find_text [ns_price @ ''commodity'', ns_cmdty @ ''id''] tree = Inr mn"
    and eq: "p_currency price = fst (commodity_find store cd cs cn)"
        "p_commodity price =
           fst (commodity_find (fst (snd (commodity_find store cd cs cn)))
             (snd (snd (commodity_find store cd cs cn))) ms mn)"
        "(store', cd') =
           snd (commodity_find (fst (snd (commodity_find store cd cs cn)))
             (snd (snd (commodity_find store cd cs cn))) ms mn)"
    by (auto simp: price_from_tree_def bind_err_Inr_iff Let_def case_prod_beta)
  obtain r1 s1 d1 where f1: "commodity_find store cd cs cn = (r1, s1, d1)"
    by (rule prod_cases3)
  obtain r2 where
      f2: "commodity_find s1 d1 ms mn = (r2, store', cd')"
    and p: "p_currency price = r1" "p_commodity price = r2"
    using eq f1 by (cases "commodity_find s1 d1 ms mn") simp
  note a = commodity_find_registers [OF f1]
  note b = commodity_find_registers [OF f2]
  have "map_of cd' (cs, cn) = Some (p_currency price)"
    using a(1) b(2) p(1) by simp
  moreover have "map_of cd' (ms, mn) = Some (p_commodity price)"
    using b(1) p(2) by simp
  ultimately show ?thesis
    using t by blast
qed

text \<open>Whether a price can be built does not depend on the registry.\<close>

lemma price_from_tree_fails:
  assumes "price_from_tree pd tree store cd = Inl e"
  shows "price_from_tree pd tree store' cd' = Inl e"
  using assms
  by (auto simp: price_from_tree_def bind_err_Inl_iff bind_err_Inr_iff Let_def case_prod_beta)

lemma commodities_loop_registers:
  assumes "commodities_loop elts store cd commodities = Inr (store', cd', commodities')"
  shows "fst ` set cd \<subseteq> fst ` set cd'
       \<and> (\<forall>child \<in> set elts. \<exists>comm. commodity_from_tree child = Inr comm
             \<and> (c_space comm, c_name comm) \<in> fst ` set cd')"
  using assms
proof (induction elts arbitrary: store cd commodities)
  case Nil
  then show ?case by simp
next
  case (Cons child rest)
  from Cons.prems(1) obtain comm where
      comm: "commodity_from_tree child = Inr comm"
    and rest: "commodities_loop rest (store @ [comm])
                 (AList.update (c_space comm, c_name comm) (length store) cd)
                 (commodities @ [length store]) = Inr (store', cd', commodities')"
    by (auto split: sum.splits)
  from Cons.IH [OF rest] comm show ?case
    by (auto simp: dom_update)
qed

text \<open>
  Claim C4, as the code has it. The registry holds the declared commodities. A price
  extends it by get-or-create: a pair that is not in the registry gets a new commodity,
  registered under the pair; building a price never fails for the sake of the registry,
  and both its references are registered afterwards. An account that is not the root and
  a transaction only look their pair up: they are built only when the pair is in the
  registry already, and they leave the registry as it is.
\<close>

theorem registry_extended_by_prices_only:
  "(\<forall>cs cd commodities.
       commodities_loop elts [] [] [] = Inr (cs, cd, commodities)
       \<longrightarrow> (\<forall>child \<in> set elts. \<exists>comm. commodity_from_tree child = Inr comm
               \<and> (c_space comm, c_name comm) \<in> fst ` set cd))
   \<and> (map_of commoditydict (space, name) = None
       \<longrightarrow> commodity_find store commoditydict space name
             = (length store, store @ [Commodity name space None],
                commoditydict @ [((space, name), length store)]))
   \<and> (\<forall>e. price_from_tree parse_date tree store commoditydict = Inl e
       \<longrightarrow> price_from_tree parse_date tree store' commoditydict' = Inl e)
   \<and> (\<forall>price store1 cd1.
         price_from_tree parse_date tree store commoditydict = Inr (price, store1, cd1)
         \<longrightarrow> (\<exists>cs cn ms mn.
                find_text [ns_price @ ''currency'', ns_cmdty @ ''space''] tree = Inr cs
              \<and> find_text [ns_price @ ''currency'', ns_cmdty @ ''id''] tree = Inr cn
              \<and> find_text [ns_price @ ''commodity'', ns_cmdty @ ''space''] tree = Inr ms
              \<and> find_text [ns_price @ ''commodity'', ns_cmdty @ ''id''] tree = Inr mn
              \<and> map_of cd1 (cs, cn) = Some (p_currency price)
              \<and> map_of cd1 (ms, mn) = Some (p_commodity price)))
   \<and> (\<forall>pg acc.
         account_from_tree parse_date tree commoditydict = Inr (pg, acc)
         \<and> a_actype acc \<noteq> Some ''ROOT''
         \<longrightarrow> (\<exists>s n r.
                find_text [ns_act @ ''commodity'', ns_cmdty @ ''space''] tree = Inr s
              \<and> find_text [ns_act @ ''commodity'', ns_cmdty @ ''id''] tree = Inr n
              \<and> map_of commoditydict (s, n) = Some r \<and> a_commodity acc = Some r))
   \<and> (\<forall>trn astore1.
         transaction_from_tree parse_date tree accountdict commoditydict ti astore
           = Inr (trn, astore1)
         \<longrightarrow> (\<exists>s n.
                find_text [ns_trn @ ''currency'', ns_cmdty @ ''space''] tree = Inr s
              \<and> find_text [ns_trn @ ''currency'', ns_cmdty @ ''id''] tree = Inr n
              \<and> map_of commoditydict (s, n) = Some (t_currency trn)))"
proof (intro conjI allI impI)
  fix cs cd commodities
  assume "commodities_loop elts [] [] [] = Inr (cs, cd, commodities)"
  then show "\<forall>child \<in> set elts. \<exists>comm. commodity_from_tree child = Inr comm
               \<and> (c_space comm, c_name comm) \<in> fst ` set cd"
    by (blast dest: commodities_loop_registers)
next
  assume "map_of commoditydict (space, name) = None"
  then show "commodity_find store commoditydict space name
             = (length store, store @ [Commodity name space None],
                commoditydict @ [((space, name), length store)])"
    by (rule commodity_find_new)
next
  fix e
  assume "price_from_tree parse_date tree store commoditydict = Inl e"
  then show "price_from_tree parse_date tree store' commoditydict' = Inl e"
    by (rule price_from_tree_fails)
next
  fix price store1 cd1
  assume "price_from_tree parse_date tree store commoditydict = Inr (price, store1, cd1)"
  then show "\<exists>cs cn ms mn.
                find_text [ns_price @ ''currency'', ns_cmdty @ ''space''] tree = Inr cs
              \<and> find_text [ns_price @ ''currency'', ns_cmdty @ ''id''] tree = Inr cn
              \<and> find_text [ns_price @ ''commodity'', ns_cmdty @ ''space''] tree = Inr ms
              \<and> find_text [ns_price @ ''commodity'', ns_cmdty @ ''id''] tree = Inr mn
              \<and> map_of cd1 (cs, cn) = Some (p_currency price)
              \<and> map_of cd1 (ms, mn) = Some (p_commodity price)"
    by (rule price_from_tree_registers)
next
  fix pg acc
  assume "account_from_tree parse_date tree commoditydict = Inr (pg, acc)
         \<and> a_actype acc \<noteq> Some ''ROOT''"
  then show "\<exists>s n r.
                find_text [ns_act @ ''commodity'', ns_cmdty @ ''space''] tree = Inr s
              \<and> find_text [ns_act @ ''commodity'', ns_cmdty @ ''id''] tree = Inr n
              \<and> map_of commoditydict (s, n) = Some r \<and> a_commodity acc = Some r"
    using account_from_tree_commodity [of parse_date tree commoditydict pg acc] by blast
next
  fix trn astore1
  assume "transaction_from_tree parse_date tree accountdict commoditydict ti astore
           = Inr (trn, astore1)"
  then show "\<exists>s n.
                find_text [ns_trn @ ''currency'', ns_cmdty @ ''space''] tree = Inr s
              \<and> find_text [ns_trn @ ''currency'', ns_cmdty @ ''id''] tree = Inr n
              \<and> map_of commoditydict (s, n) = Some (t_currency trn)"
    by (rule transaction_from_tree_currency)
qed

subsection \<open>The example book\<close>

lemma ex_book_parsed: "book_from_tree ex_parse_date (Some ex_doc) = Inr ex_book"
  by code_simp


theorem accounts_linked_to_recorded_parent_witness:
  "book_from_tree ex_parse_date (Some ex_doc) = Inr ex_book
   \<and> b_accounts ex_book = [0, 2, 3]
   \<and> a_parent (account_store ex_book ! 0) = Some 2
   \<and> count_list (a_children (account_store ex_book ! 2)) 0 = 1
   \<and> a_parent (account_store ex_book ! 2) = Some 1
   \<and> count_list (a_children (account_store ex_book ! 1)) 2 = 1
   \<and> a_parent (account_store ex_book ! 3) = Some 1
   \<and> count_list (a_children (account_store ex_book ! 1)) 3 = 1"
proof -
  have a: "b_accounts ex_book = [0, 2, 3]"
    by code_simp
  have p0: "a_parent (account_store ex_book ! 0) = Some 2"
    by code_simp
  have p2: "a_parent (account_store ex_book ! 2) = Some 1"
    by code_simp
  have p3: "a_parent (account_store ex_book ! 3) = Some 1"
    by code_simp
  from accounts_linked_to_recorded_parent [OF ex_book_parsed]
  have l: "\<forall>r \<in> set (b_accounts ex_book). \<exists>p.
         a_parent (account_store ex_book ! r) = Some p
       \<and> count_list (a_children (account_store ex_book ! p)) r = 1"
    by blast
  have "count_list (a_children (account_store ex_book ! 2)) 0 = 1"
    using l a p0 by fastforce
  moreover have "count_list (a_children (account_store ex_book ! 1)) 2 = 1"
    using l a p2 by fastforce
  moreover have "count_list (a_children (account_store ex_book ! 1)) 3 = 1"
    using l a p3 by fastforce
  ultimately show ?thesis
    using ex_book_parsed a p0 p2 p3 by blast
qed

text \<open>
  Against claim C4 as it is stated: an account in a currency that is not in the registry
  does not create the commodity, building it raises \<^verbatim>\<open>KeyError\<close>, and so does a
  transaction; the whole document is rejected.
\<close>

theorem registry_not_extended_by_accounts_counterexample:
  "map_of [((Some ''CURRENCY'', Some ''USD''), 0 :: nat)] (Some ''CURRENCY'', Some ''EUR'') = None
   \<and> account_from_tree ex_parse_date (ex_account ''Cash'' ''a1'' ''ASSET'' ''a0'' ''EUR'')
         [((Some ''CURRENCY'', Some ''USD''), 0)] = Inl KeyError
   \<and> transaction_from_tree ex_parse_date (ex_transaction ''t1'' ''3'' ''first'' []) [] [] 0 []
       = Inl KeyError
   \<and> book_from_tree ex_parse_date (Some ex_doc_undeclared) = Inl KeyError
   \<and> book_from_tree ex_parse_date (Some ex_doc_undeclared_trn) = Inl KeyError"
  by code_simp

theorem registry_extended_by_prices_only_witness:
  "map_of ([] :: commoditydict) (Some ''CURRENCY'', Some ''EUR'') = None
   \<and> commodity_find [] [] (Some ''CURRENCY'') (Some ''EUR'')
       = (0, [Commodity (Some ''EUR'') (Some ''CURRENCY'') None],
          [((Some ''CURRENCY'', Some ''EUR''), 0)])
   \<and> \<not> isl (price_from_tree ex_parse_date (ex_price ''p1'' ''0/1'' ''3'' ''EUR'' ''USD'') [] [])
   \<and> (\<exists>cs cn.
         find_text [ns_price @ ''currency'', ns_cmdty @ ''space'']
           (ex_price ''p1'' ''0/1'' ''3'' ''EUR'' ''USD'') = Inr cs
       \<and> find_text [ns_price @ ''currency'', ns_cmdty @ ''id'']
           (ex_price ''p1'' ''0/1'' ''3'' ''EUR'' ''USD'') = Inr cn
       \<and> map_of (snd (snd (projr (price_from_tree ex_parse_date
                    (ex_price ''p1'' ''0/1'' ''3'' ''EUR'' ''USD'') [] [])))) (cs, cn)
           = Some (p_currency (fst (projr (price_from_tree ex_parse_date
                    (ex_price ''p1'' ''0/1'' ''3'' ''EUR'' ''USD'') [] [])))))
   \<and> (\<exists>r. map_of [((Some ''CURRENCY'', Some ''USD''), 0 :: nat)] (Some ''CURRENCY'', Some ''USD'')
              = Some r
          \<and> a_commodity (snd (projr (account_from_tree ex_parse_date
                (ex_account ''Cash'' ''a1'' ''ASSET'' ''a0'' ''USD'')
                [((Some ''CURRENCY'', Some ''USD''), 0)]))) = Some r)"
proof -
  let ?price = "ex_price ''p1'' ''0/1'' ''3'' ''EUR'' ''USD''"
  let ?res = "projr (price_from_tree ex_parse_date ?price [] [])"
  let ?acct = "ex_account ''Cash'' ''a1'' ''ASSET'' ''a0'' ''USD''"
  let ?cd = "[((Some ''CURRENCY'', Some ''USD''), 0 :: nat)]"
  let ?ares = "projr (account_from_tree ex_parse_date ?acct ?cd)"
  have h1: "map_of ([] :: commoditydict) (Some ''CURRENCY'', Some ''EUR'') = None"
    by simp
  have h2: "\<not> isl (price_from_tree ex_parse_date ?price [] [])"
    by code_simp
  then have h2': "price_from_tree ex_parse_date ?price [] []
                    = Inr (fst ?res, fst (snd ?res), snd (snd ?res))"
    by (simp add: not_isl_Inr [symmetric])
  have h3: "\<not> isl (account_from_tree ex_parse_date ?acct ?cd)"
    by code_simp
  then have h3': "account_from_tree ex_parse_date ?acct ?cd = Inr (fst ?ares, snd ?ares)"
    by (simp add: not_isl_Inr [symmetric])
  have h4: "a_actype (snd ?ares) \<noteq> Some ''ROOT''"
    by code_simp
  have h5: "find_text [ns_act @ ''commodity'', ns_cmdty @ ''space''] ?acct = Inr (Some ''CURRENCY'')
            \<and> find_text [ns_act @ ''commodity'', ns_cmdty @ ''id''] ?acct = Inr (Some ''USD'')"
    by code_simp
  have c1: "commodity_find [] [] (Some ''CURRENCY'') (Some ''EUR'')
       = (0, [Commodity (Some ''EUR'') (Some ''CURRENCY'') None],
          [((Some ''CURRENCY'', Some ''EUR''), 0)])"
    using registry_extended_by_prices_only
            [where commoditydict = "[]" and space = "Some ''CURRENCY''" and name = "Some ''EUR''"
               and store = "[]", THEN conjunct2, THEN conjunct1]
      h1 by simp
  have c2: "\<exists>cs cn.
         find_text [ns_price @ ''currency'', ns_cmdty @ ''space''] ?price = Inr cs
       \<and> find_text [ns_price @ ''currency'', ns_cmdty @ ''id''] ?price = Inr cn
       \<and> map_of (snd (snd ?res)) (cs, cn) = Some (p_currency (fst ?res))"
    using registry_extended_by_prices_only
            [where parse_date = ex_parse_date and tree = ?price and store = "[]"
               and commoditydict = "[]",
             THEN conjunct2, THEN conjunct2, THEN conjunct2, THEN conjunct1, rule_format, OF h2']
    by blast
  have c3: "\<exists>s n r.
         find_text [ns_act @ ''commodity'', ns_cmdty @ ''space''] ?acct = Inr s
       \<and> find_text [ns_act @ ''commodity'', ns_cmdty @ ''id''] ?acct = Inr n
       \<and> map_of ?cd (s, n) = Some r \<and> a_commodity (snd ?ares) = Some r"
    using registry_extended_by_prices_only
            [where parse_date = ex_parse_date and tree = ?acct and commoditydict = ?cd,
             THEN conjunct2, THEN conjunct2, THEN conjunct2, THEN conjunct2, THEN conjunct1,
             rule_format, OF conjI [OF h3' h4]]
    by blast
  then have c3': "\<exists>r. map_of ?cd (Some ''CURRENCY'', Some ''USD'') = Some r
                     \<and> a_commodity (snd ?ares) = Some r"
    using h5 by auto
  from h1 c1 h2 c2 c3' show ?thesis
    by blast
qed

end
